theory Spec2Isabelle
  imports Main "HOL-Library.AList"
begin

section \<open>Python values\<close>

text \<open>
  The gateway of \<^verbatim>\<open>asd_api/views copy.py\<close> receives a JSON body, hands SQL text and
  parameters to the oracledb driver and shapes what the driver returns.  A Python
  \<^verbatim>\<open>str\<close> is a list of code points; here it is a \<^typ>\<open>string\<close>, so the code points are
  those below 256, where \<^verbatim>\<open>len\<close> is \<^const>\<open>length\<close> and \<^verbatim>\<open>s.count(c)\<close> for a single
  character is \<^const>\<open>count_list\<close>.  The Russian literals of the source lie outside
  that range and are kept by name.
\<close>

datatype phrase =
  Bad_data_format      \<comment> \<open>line 65: "invalid data format"\<close>
| Sql_not_provided     \<comment> \<open>line 71: "no SQL statement was given"\<close>
| Database_error       \<comment> \<open>line 81: "database error"\<close>
| Procedure_ok         \<comment> \<open>line 110: "the procedure call succeeded"\<close>

datatype datetime = DateTime nat nat nat nat nat nat
  \<comment> \<open>year, month, day, hour, minute, second of a \<^verbatim>\<open>datetime.datetime\<close>\<close>

datatype pyval =
  PNone
| PBool bool
| PInt int
| PFloat int int       \<comment> \<open>a finite float, mantissa and binary exponent\<close>
| PStr string
| PPhrase phrase
| PDateTime datetime
| PList "pyval list"
| PDict "(string \<times> pyval) list"   \<comment> \<open>items in iteration (insertion) order\<close>

text \<open>Truth value testing, as \<^verbatim>\<open>not sql\<close> uses it.\<close>

fun truthy :: "pyval \<Rightarrow> bool" where
  "truthy PNone = False"
| "truthy (PBool b) = b"
| "truthy (PInt i) = (i \<noteq> 0)"
| "truthy (PFloat m e) = (m \<noteq> 0)"
| "truthy (PStr s) = (s \<noteq> [])"
| "truthy (PPhrase t) = True"
| "truthy (PDateTime d) = True"
| "truthy (PList xs) = (xs \<noteq> [])"
| "truthy (PDict kvs) = (kvs \<noteq> [])"

fun is_dict :: "pyval \<Rightarrow> bool" where
  "is_dict (PDict kvs) = True"
| "is_dict v = False"

text \<open>\<^verbatim>\<open>d.get(k)\<close> and \<^verbatim>\<open>d.get(k, default)\<close> on an object that is a dict.\<close>

fun dict_get :: "pyval \<Rightarrow> string \<Rightarrow> pyval \<Rightarrow> pyval" where
  "dict_get (PDict kvs) k dflt = (case map_of kvs k of Some v \<Rightarrow> v | None \<Rightarrow> dflt)"
| "dict_get v k dflt = dflt"

text \<open>
  A dict display or \<^verbatim>\<open>dict(pairs)\<close> stores the pairs one after the other: a key seen
  again keeps its place and takes the later value.
\<close>

definition dict_of :: "(string \<times> 'v) list \<Rightarrow> (string \<times> 'v) list" where
  "dict_of kvs = fold (\<lambda>(k, v) d. AList.update k v d) kvs []"

section \<open>Parsing dates: \<^verbatim>\<open>datetime.strptime\<close>\<close>

text \<open>
  The binder calls \<^verbatim>\<open>datetime.strptime\<close> with two constant formats.  CPython
  (\<^verbatim>\<open>Lib/_strptime.py\<close>) turns a format into a regular expression, one group per
  directive, matches it at the start of the text with a backtracking matcher, refuses
  text left over, and builds the \<^verbatim>\<open>datetime\<close> from the groups, whose constructor
  checks the ranges.  Every failure is a \<^verbatim>\<open>ValueError\<close>.
\<close>

datatype directive =
  Dir_Y | Dir_m | Dir_d | Dir_H | Dir_M | Dir_S
| Lit char     \<comment> \<open>a character of the format, escaped\<close>
| Spaces       \<comment> \<open>white space of the format, \<^verbatim>\<open>\s+\<close>\<close>

datatype format = Format_date | Format_datetime

fun regex :: "format \<Rightarrow> directive list" where
  "regex Format_date = [Dir_Y, Lit (CHR ''-''), Dir_m, Lit (CHR ''-''), Dir_d]"
    \<comment> \<open>\<^verbatim>\<open>'%Y-%m-%d'\<close>\<close>
| "regex Format_datetime =
     [Dir_Y, Lit (CHR ''-''), Dir_m, Lit (CHR ''-''), Dir_d, Spaces,
      Dir_H, Lit (CHR '':''), Dir_M, Lit (CHR '':''), Dir_S]"
    \<comment> \<open>\<^verbatim>\<open>'%Y-%m-%d %H:%M:%S'\<close>\<close>

definition one_of :: "string \<Rightarrow> char \<Rightarrow> bool" where
  "one_of cs c = (c \<in> set cs)"

definition digit :: "char \<Rightarrow> bool" where
  "digit = one_of ''0123456789''"

definition is_space :: "char \<Rightarrow> bool" where
  \<comment> \<open>\<^verbatim>\<open>\s\<close> of a str pattern, on code points below 256\<close>
  "is_space c = ((of_char c :: nat) \<in> set [9, 10, 11, 12, 13, 28, 29, 30, 31, 32, 133, 160])"

text \<open>
  One alternative of a group, matched at the start of the text: the list of ways it
  matches, each a pair of the text consumed and the text left.
\<close>

fun alt1 :: "(char \<Rightarrow> bool) \<Rightarrow> string \<Rightarrow> (string \<times> string) list" where
  "alt1 p (a # r) = (if p a then [([a], r)] else [])"
| "alt1 p s = []"

fun alt2 :: "(char \<Rightarrow> bool) \<Rightarrow> (char \<Rightarrow> bool) \<Rightarrow> string \<Rightarrow> (string \<times> string) list" where
  "alt2 p q (a # b # r) = (if p a \<and> q b then [([a, b], r)] else [])"
| "alt2 p q s = []"

text \<open>The ways one directive matches, in the order the matcher tries them.\<close>

fun match_dir :: "directive \<Rightarrow> string \<Rightarrow> (string \<times> string) list" where
  "match_dir Dir_Y s =
     (case s of a # b # c # d # r \<Rightarrow>
        if digit a \<and> digit b \<and> digit c \<and> digit d then [([a, b, c, d], r)] else []
      | _ \<Rightarrow> [])"
| "match_dir Dir_m s =
     alt2 (one_of ''1'') (one_of ''012'') s @ alt2 (one_of ''0'') (one_of ''123456789'') s
     @ alt1 (one_of ''123456789'') s"
| "match_dir Dir_d s =
     alt2 (one_of ''3'') (one_of ''01'') s @ alt2 (one_of ''12'') digit s
     @ alt2 (one_of ''0'') (one_of ''123456789'') s @ alt1 (one_of ''123456789'') s
     @ alt2 (one_of '' '') (one_of ''123456789'') s"
| "match_dir Dir_H s =
     alt2 (one_of ''2'') (one_of ''0123'') s @ alt2 (one_of ''01'') digit s @ alt1 digit s"
| "match_dir Dir_M s = alt2 (one_of ''012345'') digit s @ alt1 digit s"
| "match_dir Dir_S s =
     alt2 (one_of ''6'') (one_of ''01'') s @ alt2 (one_of ''012345'') digit s @ alt1 digit s"
| "match_dir (Lit x) s = alt1 (\<lambda>c. c = x) s"
| "match_dir Spaces s =
     map (\<lambda>k. (take k s, drop k s)) (rev [1 ..< Suc (length (takeWhile is_space s))])"

text \<open>
  The ways a sequence of directives matches: the first element is the match the
  backtracking matcher reports, with the text of each group.
\<close>

fun match_seq :: "directive list \<Rightarrow> string \<Rightarrow> ((directive \<times> string) list \<times> string) list" where
  "match_seq [] s = [([], s)]"
| "match_seq (d # ds) s =
     concat (map (\<lambda>(cap, rest). map (\<lambda>(caps, r). ((d, cap) # caps, r)) (match_seq ds rest))
               (match_dir d s))"

definition digit_val :: "char \<Rightarrow> nat" where
  "digit_val c = of_char c - 48"

definition decimal :: "string \<Rightarrow> nat" where
  "decimal s = foldl (\<lambda>n c. 10 * n + digit_val c) 0 s"

definition strip :: "string \<Rightarrow> string" where
  "strip s = rev (dropWhile is_space (rev (dropWhile is_space s)))"

definition py_int :: "string \<Rightarrow> nat" where
  \<comment> \<open>\<^verbatim>\<open>int(text)\<close> on the text of a group, which is digits, after one space at most\<close>
  "py_int s = decimal (strip s)"

definition group :: "(directive \<times> string) list \<Rightarrow> directive \<Rightarrow> nat \<Rightarrow> nat" where
  "group found d dflt = (case map_of found d of Some cap \<Rightarrow> py_int cap | None \<Rightarrow> dflt)"

definition is_leap :: "nat \<Rightarrow> bool" where
  "is_leap y = (y mod 4 = 0 \<and> (y mod 100 \<noteq> 0 \<or> y mod 400 = 0))"

definition days_in_month :: "nat \<Rightarrow> nat \<Rightarrow> nat" where
  "days_in_month y m =
     (if m = 2 then (if is_leap y then 29 else 28)
      else if m = 4 \<or> m = 6 \<or> m = 9 \<or> m = 11 then 30 else 31)"

definition valid_datetime :: "datetime \<Rightarrow> bool" where
  \<comment> \<open>the range checks of the \<^verbatim>\<open>date\<close> and \<^verbatim>\<open>datetime\<close> constructors\<close>
  "valid_datetime dt = (case dt of DateTime y m d hh mm ss \<Rightarrow>
     1 \<le> y \<and> y \<le> 9999 \<and> 1 \<le> m \<and> m \<le> 12 \<and> 1 \<le> d \<and> d \<le> days_in_month y m
     \<and> hh \<le> 23 \<and> mm \<le> 59 \<and> ss \<le> 59)"

datatype value_error =
  No_match                  \<comment> \<open>"time data ... does not match format ..."\<close>
| Unconverted_data string  \<comment> \<open>"unconverted data remains: ..."\<close>
| Out_of_range              \<comment> \<open>a field outside the calendar or the clock\<close>

definition strptime :: "string \<Rightarrow> format \<Rightarrow> value_error + datetime" where
  "strptime data_string fmt =
     (case match_seq (regex fmt) data_string of
        [] \<Rightarrow> Inl No_match
      | (found, rest) # _ \<Rightarrow>
          if rest \<noteq> [] then Inl (Unconverted_data rest)
          else
            let dt = DateTime (group found Dir_Y 1900) (group found Dir_m 1) (group found Dir_d 1)
                       (group found Dir_H 0) (group found Dir_M 0) (group found Dir_S 0)
            in if valid_datetime dt then Inr dt else Inl Out_of_range)"

section \<open>Exceptions, the driver and its trace\<close>

datatype detail =
  Date_conversion string value_error
    \<comment> \<open>line 136: the message names the key and quotes the \<^verbatim>\<open>ValueError\<close>\<close>
| Datetime_conversion string value_error
    \<comment> \<open>line 141, likewise\<close>

datatype exn =
  OracleError string        \<comment> \<open>an instance of \<^verbatim>\<open>oracledb.Error\<close>, with its text\<close>
| ValidationError detail    \<comment> \<open>\<^verbatim>\<open>rest_framework.exceptions.ValidationError\<close>\<close>
| AttributeError string     \<comment> \<open>the attribute that is missing\<close>
| KeyError string
| TypeError string
| OtherError string         \<comment> \<open>any other \<^verbatim>\<open>Exception\<close>\<close>

fun is_oracle_error :: "exn \<Rightarrow> bool" where
  "is_oracle_error (OracleError m) = True"
| "is_oracle_error e = False"

datatype dbtype = DbType string   \<comment> \<open>a \<^verbatim>\<open>DbType\<close> object, by its \<^verbatim>\<open>name\<close>\<close>

fun type_name :: "dbtype \<Rightarrow> string" where
  "type_name (DbType n) = n"

definition DB_TYPE_CURSOR :: dbtype where
  "DB_TYPE_CURSOR = DbType ''DB_TYPE_CURSOR''"

datatype pyobj =
  TypeObj dbtype      \<comment> \<open>an attribute of the module that is a database type\<close>
| OtherObj string     \<comment> \<open>any other attribute of the module\<close>

datatype var = Var nat dbtype
  \<comment> \<open>the object \<^verbatim>\<open>cursor.var\<close> returns: when it was made, and its \<^verbatim>\<open>type\<close>\<close>

fun var_type :: "var \<Rightarrow> dbtype" where
  "var_type (Var i t) = t"

datatype bindarg = Value pyval | OutVar var

type_synonym description = "(string \<times> dbtype) list"
  \<comment> \<open>\<^verbatim>\<open>col[0]\<close> and \<^verbatim>\<open>col[1]\<close> of each column of \<^verbatim>\<open>cursor.description\<close>\<close>

datatype refcursor = RefCursor "description option" "exn + pyval list list"
  \<comment> \<open>a cursor held by a variable: its \<^verbatim>\<open>description\<close> and what \<^verbatim>\<open>fetchall()\<close> gives\<close>

datatype event =
  Acquire | Release
| Execute string pyval
| Fetchall
| Callproc string "bindarg list"
| Commit
| NewVar pyobj
| Getvalue var
| Log_database_error exn
| Log_unexpected_error exn

text \<open>
  The driver is outside the repository.  It is a parameter of the model: what each of
  its calls answers, given everything that happened on the connection before.
\<close>

record driver =
  module_attr :: "string \<Rightarrow> pyobj option"
  pool_acquire :: "event list \<Rightarrow> exn option"
  cursor_var :: "event list \<Rightarrow> pyobj \<Rightarrow> exn + dbtype"
  cursor_execute :: "event list \<Rightarrow> string \<Rightarrow> pyval \<Rightarrow> exn + description option"
  cursor_fetchall :: "event list \<Rightarrow> exn + pyval list list"
  cursor_callproc :: "event list \<Rightarrow> string \<Rightarrow> bindarg list \<Rightarrow> exn option"
  var_getvalue :: "event list \<Rightarrow> var \<Rightarrow> exn + pyval"
    \<comment> \<open>\<^verbatim>\<open>getvalue()\<close> of a variable that is not of the cursor type\<close>
  var_getcursor :: "event list \<Rightarrow> var \<Rightarrow> exn + refcursor"
    \<comment> \<open>\<^verbatim>\<open>getvalue()\<close> of a variable of the cursor type\<close>
  connection_commit :: "event list \<Rightarrow> exn option"

type_synonym 'a action = "event list \<Rightarrow> (exn + 'a) \<times> event list"

definition return :: "'a \<Rightarrow> 'a action" where
  "return a tr = (Inr a, tr)"

definition raise :: "exn \<Rightarrow> 'a action" where
  "raise e tr = (Inl e, tr)"

definition then_do :: "'a action \<Rightarrow> ('a \<Rightarrow> 'b action) \<Rightarrow> 'b action" where
  "then_do m f tr = (case m tr of (Inl e, tr') \<Rightarrow> (Inl e, tr') | (Inr a, tr') \<Rightarrow> f a tr')"

fun unit_result :: "exn option \<Rightarrow> exn + unit" where
  "unit_result None = Inr ()"
| "unit_result (Some e) = Inl e"

definition execute :: "driver \<Rightarrow> string \<Rightarrow> pyval \<Rightarrow> description option action" where
  "execute drv sql params tr = (cursor_execute drv tr sql params, tr @ [Execute sql params])"

definition fetchall :: "driver \<Rightarrow> pyval list list action" where
  "fetchall drv tr = (cursor_fetchall drv tr, tr @ [Fetchall])"

definition callproc :: "driver \<Rightarrow> string \<Rightarrow> bindarg list \<Rightarrow> unit action" where
  "callproc drv name args tr =
     (unit_result (cursor_callproc drv tr name args), tr @ [Callproc name args])"

definition commit :: "driver \<Rightarrow> unit action" where
  "commit drv tr = (unit_result (connection_commit drv tr), tr @ [Commit])"

definition new_var :: "driver \<Rightarrow> pyobj \<Rightarrow> var action" where
  "new_var drv obj tr =
     (case cursor_var drv tr obj of
        Inl e \<Rightarrow> (Inl e, tr @ [NewVar obj])
      | Inr t \<Rightarrow> (Inr (Var (length tr) t), tr @ [NewVar obj]))"

definition getvalue :: "driver \<Rightarrow> var \<Rightarrow> pyval action" where
  "getvalue drv v tr = (var_getvalue drv tr v, tr @ [Getvalue v])"

definition getcursor :: "driver \<Rightarrow> var \<Rightarrow> refcursor action" where
  "getcursor drv v tr = (var_getcursor drv tr v, tr @ [Getvalue v])"

section \<open>The parameter binder: \<^verbatim>\<open>BaseView.prepare_proc_params\<close>\<close>

definition is_out_descriptor :: "pyval \<Rightarrow> bool" where
  \<comment> \<open>\<^verbatim>\<open>isinstance(value, dict) and value.get('dir') == 'OUT'\<close>\<close>
  "is_out_descriptor v = (is_dict v \<and> dict_get v ''dir'' PNone = PStr ''OUT'')"

definition date_shape :: "string \<Rightarrow> bool" where
  \<comment> \<open>line 132\<close>
  "date_shape s = (count_list s (CHR ''-'') = 2 \<and> length s = 10)"

definition datetime_shape :: "string \<Rightarrow> bool" where
  \<comment> \<open>line 137\<close>
  "datetime_shape s =
     (count_list s (CHR ''-'') = 2 \<and> count_list s (CHR '':'') = 2 \<and> length s = 19)"

text \<open>Lines 131 to 142: the value that is appended for a parameter that is not an OUT one.\<close>

definition coerce :: "string \<Rightarrow> pyval \<Rightarrow> exn + pyval" where
  "coerce key v =
     (case v of
        PStr s \<Rightarrow>
          if date_shape s then
            (case strptime s Format_date of
               Inr dt \<Rightarrow> Inr (PDateTime dt)
             | Inl e \<Rightarrow> Inl (ValidationError (Date_conversion key e)))
          else if datetime_shape s then
            (case strptime s Format_datetime of
               Inr dt \<Rightarrow> Inr (PDateTime dt)
             | Inl e \<Rightarrow> Inl (ValidationError (Datetime_conversion key e)))
          else Inr v
      | _ \<Rightarrow> Inr v)"

text \<open>Lines 128 to 130: \<^verbatim>\<open>cursor.var(getattr(oracledb, value['type']))\<close>.\<close>

definition out_var :: "driver \<Rightarrow> pyval \<Rightarrow> var action" where
  "out_var drv v =
     (case v of
        PDict d \<Rightarrow>
          (case map_of d ''type'' of
             None \<Rightarrow> raise (KeyError ''type'')
           | Some (PStr name) \<Rightarrow>
               (case module_attr drv name of
                  None \<Rightarrow> raise (AttributeError name)
                | Some obj \<Rightarrow> new_var drv obj)
           | Some _ \<Rightarrow> raise (TypeError ''attribute name must be string''))
      | _ \<Rightarrow> raise (TypeError ''not subscriptable''))"

text \<open>The body of the loop of line 126, on the two accumulators.\<close>

definition bind_param ::
  "driver \<Rightarrow> string \<Rightarrow> pyval \<Rightarrow> bindarg list \<times> (string \<times> var) list
     \<Rightarrow> (bindarg list \<times> (string \<times> var) list) action" where
  "bind_param drv key v acc =
     (case acc of (proc_params, proc_out_params) \<Rightarrow>
        if is_out_descriptor v then
          then_do (out_var drv v) (\<lambda>out_param.
            return (proc_params @ [OutVar out_param], AList.update key out_param proc_out_params))
        else
          (case coerce key v of
             Inl e \<Rightarrow> raise e
           | Inr v' \<Rightarrow> return (proc_params @ [Value v'], proc_out_params)))"

fun bind_params ::
  "driver \<Rightarrow> (string \<times> pyval) list \<Rightarrow> bindarg list \<times> (string \<times> var) list
     \<Rightarrow> (bindarg list \<times> (string \<times> var) list) action" where
  "bind_params drv [] acc = return acc"
| "bind_params drv ((key, v) # items) acc =
     then_do (bind_param drv key v acc) (bind_params drv items)"

definition prepare_proc_params ::
  "driver \<Rightarrow> pyval \<Rightarrow> (bindarg list \<times> (string \<times> var) list) action" where
  "prepare_proc_params drv params =
     (case params of
        PDict items \<Rightarrow> bind_params drv items ([], [])
      | _ \<Rightarrow> raise (AttributeError ''items''))"

section \<open>The result projector\<close>

definition column_type_mapping :: "(string \<times> pyval) list" where
  "column_type_mapping =
     [
      (''DB_TYPE_VARCHAR'', PList [PStr ''string'', PStr ''DB_TYPE_VARCHAR'']),
      (''DB_TYPE_NVARCHAR'', PList [PStr ''string'', PStr ''DB_TYPE_NVARCHAR'']),
      (''DB_TYPE_NCHAR'', PList [PStr ''string'', PStr ''DB_TYPE_NCHAR'']),
      (''DB_TYPE_CHAR'', PList [PStr ''string'', PStr ''DB_TYPE_CHAR'']),
      (''DB_TYPE_NUMBER'', PList [PStr ''number'', PStr ''DB_TYPE_NUMBER'']),
      (''DB_TYPE_BINARY_FLOAT'', PList [PStr ''number'', PStr ''DB_TYPE_BINARY_FLOAT'']),
      (''DB_TYPE_BINARY_DOUBLE'', PList [PStr ''number'', PStr ''DB_TYPE_BINARY_DOUBLE'']),
      (''DB_TYPE_DATE'', PList [PStr ''date'', PStr ''DB_TYPE_DATE'']),
      (''DB_TYPE_TIMESTAMP'', PList [PStr ''date'', PStr ''DB_TYPE_TIMESTAMP'']),
      (''DB_TYPE_TIMESTAMP_WITH_TIMEZONE'', PList [PStr ''date'', PStr ''DB_TYPE_TIMESTAMP_WITH_TIMEZONE'']),
      (''DB_TYPE_TIMESTAMP_LTZ'', PList [PStr ''date'', PStr ''DB_TYPE_TIMESTAMP_LTZ'']),
      (''DB_TYPE_TIMESTAMP_TZ'', PList [PStr ''date'', PStr ''DB_TYPE_TIMESTAMP_TZ'']),
      (''DB_TYPE_TIMESTAMP_UTC'', PList [PStr ''date'', PStr ''DB_TYPE_TIMESTAMP_UTC'']),
      (''DB_TYPE_RAW'', PList [PStr ''string'', PStr ''DB_TYPE_RAW'']),
      (''DB_TYPE_LONG'', PList [PStr ''string'', PStr ''DB_TYPE_LONG'']),
      (''DB_TYPE_BLOB'', PList [PStr ''string'', PStr ''DB_TYPE_BLOB'']),
      (''DB_TYPE_CLOB'', PList [PStr ''string'', PStr ''DB_TYPE_CLOB'']),
      (''DB_TYPE_NCLOB'', PList [PStr ''string'', PStr ''DB_TYPE_NCLOB'']),
      (''DB_TYPE_BOOLEAN'', PList [PStr ''boolean'', PStr ''DB_TYPE_BOOLEAN'']),
      (''DB_TYPE_INT64'', PList [PStr ''number'', PStr ''DB_TYPE_INT64'']),
      (''DB_TYPE_INT32'', PList [PStr ''number'', PStr ''DB_TYPE_INT32'']),
      (''DB_TYPE_INT16'', PList [PStr ''number'', PStr ''DB_TYPE_INT16'']),
      (''DB_TYPE_INT8'', PList [PStr ''number'', PStr ''DB_TYPE_INT8'']),
      (''DB_TYPE_FLOAT'', PList [PStr ''number'', PStr ''DB_TYPE_FLOAT'']),
      (''DB_TYPE_DOUBLE'', PList [PStr ''number'', PStr ''DB_TYPE_DOUBLE'']),
      (''DB_TYPE_DECIMAL'', PList [PStr ''number'', PStr ''DB_TYPE_DECIMAL'']),
      (''DB_TYPE_BIGINT'', PList [PStr ''number'', PStr ''DB_TYPE_BIGINT'']),
      (''DB_TYPE_SMALLINT'', PList [PStr ''number'', PStr ''DB_TYPE_SMALLINT'']),
      (''DB_TYPE_TINYINT'', PList [PStr ''number'', PStr ''DB_TYPE_TINYINT'']),
      (''DB_TYPE_XML'', PList [PStr ''string'', PStr ''DB_TYPE_XML'']),
      (''DB_TYPE_REF_CURSOR'', PList [PStr ''string'', PStr ''DB_TYPE_REF_CURSOR'']),
      (''DB_TYPE_TIMESTAMP_WITH_LOCAL_TIME_ZONE'', PList [PStr ''date'', PStr ''DB_TYPE_TIMESTAMP_WITH_LOCAL_TIME_ZONE'']),
      (''DB_TYPE_TIMESTAMP_WITH_UTC_TIME_ZONE'', PList [PStr ''date'', PStr ''DB_TYPE_TIMESTAMP_WITH_UTC_TIME_ZONE'']),
      (''DB_TYPE_TIMESTAMP_WITH_TIME_ZONE'', PList [PStr ''date'', PStr ''DB_TYPE_TIMESTAMP_WITH_TIME_ZONE''])
     ]"

definition get_column_type :: "dbtype \<Rightarrow> pyval" where
  \<comment> \<open>line 224: \<^verbatim>\<open>column_type_mapping.get(column_type.name, 'string')\<close>\<close>
  "get_column_type column_type =
     (case map_of column_type_mapping (type_name column_type) of
        Some v \<Rightarrow> v
      | None \<Rightarrow> PStr ''string'')"

text \<open>Lines 173 to 175 and 159 to 161: one mapping from column name to value for each row.\<close>

definition row_list :: "description \<Rightarrow> pyval list list \<Rightarrow> pyval" where
  "row_list description rows =
     PList (map (\<lambda>row. PDict (dict_of (zip (map fst description) row))) rows)"

text \<open>Lines 253 to 258 and 235 to 241: the columns with their tags, and the rows as lists.\<close>

definition table :: "description \<Rightarrow> pyval list list \<Rightarrow> pyval" where
  "table description rows =
     PDict [(''columns'', PDict (dict_of (map (\<lambda>(name, t). (name, get_column_type t)) description))),
            (''rows'', PList (map PList rows))]"

datatype view = QueryView | DataTableView
  \<comment> \<open>the two classes that \<^verbatim>\<open>urls.py\<close> routes to\<close>

fun project :: "view \<Rightarrow> description \<Rightarrow> pyval list list \<Rightarrow> pyval" where
  "project QueryView = row_list"
| "project DataTableView = table"

fun empty_projection :: "view \<Rightarrow> pyval" where
  "empty_projection QueryView = PList []"
| "empty_projection DataTableView = PDict [(''columns'', PDict []), (''rows'', PList [])]"

text \<open>\<^verbatim>\<open>execute_query\<close> of both classes (lines 166 to 179 and 246 to 265).\<close>

definition execute_query :: "view \<Rightarrow> driver \<Rightarrow> string \<Rightarrow> pyval \<Rightarrow> pyval action" where
  "execute_query view drv sql params =
     then_do (execute drv sql params) (\<lambda>description.
       case description of
         Some (col # cols) \<Rightarrow>
           then_do (fetchall drv) (\<lambda>rows. return (project view (col # cols) rows))
       | _ \<Rightarrow> then_do (commit drv) (\<lambda>u. return (empty_projection view)))"

section \<open>The output extractor: \<^verbatim>\<open>get_proc_output\<close>\<close>

text \<open>The value stored for one OUT parameter (lines 157 to 163 and 233 to 243).\<close>

definition out_value :: "view \<Rightarrow> driver \<Rightarrow> var \<Rightarrow> pyval action" where
  "out_value view drv out_param =
     (if var_type out_param = DB_TYPE_CURSOR then
        then_do (getcursor drv out_param) (\<lambda>cursor_out.
          case cursor_out of RefCursor description rows \<Rightarrow>
            (case description of
               None \<Rightarrow> raise (TypeError ''NoneType object is not iterable'')
             | Some cols \<Rightarrow>
                 (case rows of
                    Inl e \<Rightarrow> raise e
                  | Inr rs \<Rightarrow> return (project view cols rs))))
      else getvalue drv out_param)"

fun output_loop ::
  "view \<Rightarrow> driver \<Rightarrow> (string \<times> var) list \<Rightarrow> (string \<times> pyval) list
     \<Rightarrow> (string \<times> pyval) list action" where
  "output_loop view drv [] output_data = return output_data"
| "output_loop view drv ((key, out_param) # rest) output_data =
     then_do (out_value view drv out_param) (\<lambda>v.
       output_loop view drv rest (AList.update key v output_data))"

definition get_proc_output ::
  "view \<Rightarrow> driver \<Rightarrow> (string \<times> var) list \<Rightarrow> (string \<times> pyval) list action" where
  "get_proc_output view drv proc_out_params = output_loop view drv proc_out_params []"

section \<open>The dispatcher and the request handler\<close>

definition call_procedure :: "view \<Rightarrow> driver \<Rightarrow> string \<Rightarrow> pyval \<Rightarrow> pyval action" where
  "call_procedure view drv proc_name params =
     then_do (prepare_proc_params drv params) (\<lambda>(proc_params, proc_out_params).
     then_do (callproc drv proc_name proc_params) (\<lambda>u.
     then_do (commit drv) (\<lambda>u.
       if proc_out_params \<noteq> [] then
         then_do (get_proc_output view drv proc_out_params) (\<lambda>output.
           return (PDict [(''message'', PPhrase Procedure_ok), (''output'', PDict output)]))
       else return (PDict [(''message'', PPhrase Procedure_ok)]))))"

definition execute_sql :: "view \<Rightarrow> driver \<Rightarrow> pyval \<Rightarrow> pyval \<Rightarrow> pyval action" where
  "execute_sql view drv sql params =
     (case sql of
        PStr s \<Rightarrow>
          if take 4 s = ''CALL'' then call_procedure view drv (drop 5 s) params
          else execute_query view drv s params
      | _ \<Rightarrow> raise (AttributeError ''startswith''))"

datatype message =
  Fixed phrase     \<comment> \<open>a literal of the source\<close>
| Str_of exn       \<comment> \<open>\<^verbatim>\<open>str(e)\<close>\<close>

datatype body = Error message | Data pyval
  \<comment> \<open>\<^verbatim>\<open>{'error': ...}\<close> and \<^verbatim>\<open>{'data': ...}\<close>\<close>

datatype response = Response body nat

text \<open>
  The body of the \<^verbatim>\<open>try\<close> of lines 74 to 77.  Leaving the \<^verbatim>\<open>with\<close> block gives the
  connection back to the pool, whether the block ended or raised.
\<close>

definition run_request :: "view \<Rightarrow> driver \<Rightarrow> pyval \<Rightarrow> pyval \<Rightarrow> pyval action" where
  "run_request view drv sql params tr =
     (case pool_acquire drv tr of
        Some e \<Rightarrow> (Inl e, tr @ [Acquire])
      | None \<Rightarrow>
          (case then_do (execute_sql view drv sql params)
                  (\<lambda>result. then_do (commit drv) (\<lambda>u. return result)) (tr @ [Acquire]) of
             (r, tr') \<Rightarrow> (r, tr' @ [Release])))"

text \<open>The two \<^verbatim>\<open>except\<close> clauses of lines 79 to 84, and the answer of line 78.\<close>

fun respond :: "(exn + pyval) \<times> event list \<Rightarrow> response \<times> event list" where
  "respond (Inr result, tr) = (Response (Data result) 200, tr)"
| "respond (Inl e, tr) =
     (if is_oracle_error e
      then (Response (Error (Fixed Database_error)) 400, tr @ [Log_database_error e])
      else (Response (Error (Str_of e)) 400, tr @ [Log_unexpected_error e]))"

definition post :: "view \<Rightarrow> driver \<Rightarrow> pyval \<Rightarrow> event list \<Rightarrow> response \<times> event list" where
  "post view drv data tr =
     (if \<not> is_dict data then (Response (Error (Fixed Bad_data_format)) 400, tr)
      else
        let sql = dict_get data ''sql'' PNone;
            params = dict_get data ''params'' (PDict [])
        in if \<not> truthy sql then (Response (Error (Fixed Sql_not_provided)) 400, tr)
           else respond (run_request view drv sql params tr))"

section \<open>The earlier variant: \<^verbatim>\<open>OracleBaseView.execute_sql\<close> of \<^verbatim>\<open>~views.py\<close>\<close>

definition OracleBaseView_execute_sql :: "driver \<Rightarrow> string \<Rightarrow> pyval \<Rightarrow> pyval action" where
  "OracleBaseView_execute_sql drv sql params =
     then_do (execute drv sql params) (\<lambda>description.
       case description of
         Some (col # cols) \<Rightarrow>
           then_do (fetchall drv) (\<lambda>rows.
             return (PDict [(''columns'', PList (map (\<lambda>c. PStr (fst c)) (col # cols))),
                            (''rows'', row_list (col # cols) rows)]))
       | _ \<Rightarrow>
           then_do (commit drv) (\<lambda>u.
             return (PDict [(''columns'', PList []), (''rows'', PList [])])))"

section \<open>The patterns of the specification\<close>

text \<open>
  The specification speaks of texts that match \<^verbatim>\<open>\d{4}-\d{2}-\d{2}\<close> and
  \<^verbatim>\<open>\d{4}-\d{2}-\d{2} \d{2}:\d{2}:\d{2}\<close> exactly.  These definitions follow its words,
  not the code, to be compared with the tests the code makes.
\<close>

datatype pat = Digit | Exactly char

fun fullmatch :: "pat list \<Rightarrow> string \<Rightarrow> bool" where
  "fullmatch [] s = (s = [])"
| "fullmatch (p # ps) [] = False"
| "fullmatch (Digit # ps) (c # cs) = (digit c \<and> fullmatch ps cs)"
| "fullmatch (Exactly x # ps) (c # cs) = (c = x \<and> fullmatch ps cs)"

definition date_pattern :: "pat list" where
  "date_pattern =
     [Digit, Digit, Digit, Digit, Exactly (CHR ''-''), Digit, Digit, Exactly (CHR ''-''),
      Digit, Digit]"

definition datetime_pattern :: "pat list" where
  "datetime_pattern =
     date_pattern @
     [Exactly (CHR '' ''), Digit, Digit, Exactly (CHR '':''), Digit, Digit, Exactly (CHR '':''),
      Digit, Digit]"

definition number_at :: "string \<Rightarrow> nat \<Rightarrow> nat \<Rightarrow> nat" where
  \<comment> \<open>the number written by the \<open>n\<close> digits from position \<open>i\<close>\<close>
  "number_at s i n = decimal (take n (drop i s))"

definition date_value :: "string \<Rightarrow> datetime" where
  "date_value s = DateTime (number_at s 0 4) (number_at s 5 2) (number_at s 8 2) 0 0 0"

definition datetime_value :: "string \<Rightarrow> datetime" where
  "datetime_value s =
     DateTime (number_at s 0 4) (number_at s 5 2) (number_at s 8 2)
       (number_at s 11 2) (number_at s 14 2) (number_at s 17 2)"

definition semantic_types :: "string list" where
  "semantic_types = [''string'', ''number'', ''date'', ''boolean'']"

section \<open>Reading the trace\<close>

fun is_execute :: "event \<Rightarrow> bool" where
  "is_execute (Execute sql params) = True"
| "is_execute e = False"

fun is_callproc :: "event \<Rightarrow> bool" where
  "is_callproc (Callproc name args) = True"
| "is_callproc e = False"

fun callproc_of :: "string \<Rightarrow> event \<Rightarrow> bool" where
  \<comment> \<open>not a query, and if a procedure call then of this procedure\<close>
  "callproc_of name (Callproc n args) = (n = name)"
| "callproc_of name (Execute sql params) = False"
| "callproc_of name e = True"

definition emits :: "'a action \<Rightarrow> (event \<Rightarrow> bool) \<Rightarrow> bool" where
  \<comment> \<open>the action only adds events to the trace, and each of them satisfies \<open>P\<close>\<close>
  "emits m P = (\<forall>tr. \<exists>r evs. m tr = (r, tr @ evs) \<and> list_all P evs)"

section \<open>A driver to run the model on\<close>

definition sample_description :: description where
  "sample_description = [(''ID'', DbType ''DB_TYPE_NUMBER''), (''NAME'', DbType ''DB_TYPE_VARCHAR'')]"

definition sample_rows :: "pyval list list" where
  "sample_rows = [[PInt 1, PStr ''a''], [PInt 2, PStr ''b'']]"

definition sample_attr :: "string \<Rightarrow> pyobj option" where
  "sample_attr name =
     (if name = ''DB_TYPE_CURSOR'' \<or> name = ''CURSOR'' then Some (TypeObj DB_TYPE_CURSOR)
      else if name = ''DB_TYPE_NUMBER'' \<or> name = ''NUMBER'' then Some (TypeObj (DbType ''DB_TYPE_NUMBER''))
      else if name = ''connect'' then Some (OtherObj ''connect'')
      else None)"

definition sample_var :: "pyobj \<Rightarrow> exn + dbtype" where
  "sample_var obj =
     (case obj of TypeObj t \<Rightarrow> Inr t | OtherObj n \<Rightarrow> Inl (OracleError ''ProgrammingError''))"

definition sample_execute :: "string \<Rightarrow> exn + description option" where
  "sample_execute sql =
     (if take 6 sql = ''SELECT'' then Inr (Some sample_description)
      else if take 6 sql = ''DELETE'' then Inr None
      else Inl (OracleError ''ORA-00900: invalid SQL statement''))"

definition sample_driver :: driver where
  "sample_driver =
     \<lparr> module_attr = sample_attr,
       pool_acquire = (\<lambda>tr. None),
       cursor_var = (\<lambda>tr. sample_var),
       cursor_execute = (\<lambda>tr sql params. sample_execute sql),
       cursor_fetchall = (\<lambda>tr. Inr sample_rows),
       cursor_callproc = (\<lambda>tr name args. None),
       var_getvalue = (\<lambda>tr v. Inr (PInt 42)),
       var_getcursor = (\<lambda>tr v. Inr (RefCursor (Some sample_description) (Inr sample_rows))),
       connection_commit = (\<lambda>tr. None) \<rparr>"

section \<open>Actions and their traces\<close>

lemma then_do_Inr: "m tr = (Inr a, tr') \<Longrightarrow> then_do m f tr = f a tr'"
  by (simp add: then_do_def)

lemma then_do_Inl: "m tr = (Inl e, tr') \<Longrightarrow> then_do m f tr = (Inl e, tr')"
  by (simp add: then_do_def)

lemma emits_return: "emits (return a) P"
  by (simp add: emits_def return_def)

lemma emits_raise: "emits (raise e) P"
  by (simp add: emits_def raise_def)

lemma emits_then_do:
  assumes m: "emits m P" and f: "\<And>a. emits (f a) P"
  shows "emits (then_do m f) P"
  unfolding emits_def
proof
  fix tr
  from m obtain r evs where 1: "m tr = (r, tr @ evs)" "list_all P evs"
    unfolding emits_def by blast
  show "\<exists>r evs. then_do m f tr = (r, tr @ evs) \<and> list_all P evs"
  proof (cases r)
    case (Inl e)
    with 1 show ?thesis by (simp add: then_do_def)
  next
    case (Inr a)
    from f[of a] obtain r' evs' where 2: "f a (tr @ evs) = (r', (tr @ evs) @ evs')" "list_all P evs'"
      unfolding emits_def by blast
    with 1 Inr have "then_do m f tr = (r', tr @ (evs @ evs'))" by (simp add: then_do_def)
    moreover have "list_all P (evs @ evs')" using 1 2 by simp
    ultimately show ?thesis by blast
  qed
qed

lemma emits_execute: "P (Execute sql params) \<Longrightarrow> emits (execute drv sql params) P"
  by (simp add: emits_def execute_def)

lemma emits_fetchall: "P Fetchall \<Longrightarrow> emits (fetchall drv) P"
  by (simp add: emits_def fetchall_def)

lemma emits_commit: "P Commit \<Longrightarrow> emits (commit drv) P"
  by (simp add: emits_def commit_def)

lemma emits_callproc: "P (Callproc name args) \<Longrightarrow> emits (callproc drv name args) P"
  by (simp add: emits_def callproc_def)

lemma emits_new_var: "P (NewVar obj) \<Longrightarrow> emits (new_var drv obj) P"
  by (simp add: emits_def new_var_def split: sum.split)

lemma emits_getvalue: "P (Getvalue v) \<Longrightarrow> emits (getvalue drv v) P"
  by (simp add: emits_def getvalue_def)

lemma emits_getcursor: "P (Getvalue v) \<Longrightarrow> emits (getcursor drv v) P"
  by (simp add: emits_def getcursor_def)

lemma emits_execute_query:
  "P (Execute sql params) \<Longrightarrow> P Fetchall \<Longrightarrow> P Commit \<Longrightarrow> emits (execute_query view drv sql params) P"
  unfolding execute_query_def
  by (intro emits_then_do emits_execute)
     (auto split: option.split list.split intro!: emits_then_do emits_fetchall emits_commit emits_return)

lemma emits_out_var: "(\<And>obj. P (NewVar obj)) \<Longrightarrow> emits (out_var drv v) P"
  unfolding out_var_def
  by (auto split: pyval.split option.split intro!: emits_raise emits_new_var)

lemma emits_bind_param: "(\<And>obj. P (NewVar obj)) \<Longrightarrow> emits (bind_param drv key v acc) P"
  unfolding bind_param_def
  by (auto split: prod.split sum.split intro!: emits_then_do emits_out_var emits_return emits_raise)

lemma emits_bind_params: "(\<And>obj. P (NewVar obj)) \<Longrightarrow> emits (bind_params drv items acc) P"
proof (induction items arbitrary: acc)
  case Nil
  show ?case by (simp add: emits_return)
next
  case (Cons kv items)
  obtain key v where kv: "kv = (key, v)" by (cases kv)
  show ?case unfolding kv bind_params.simps
    by (intro emits_then_do emits_bind_param Cons)
qed

lemma emits_prepare_proc_params:
  "(\<And>obj. P (NewVar obj)) \<Longrightarrow> emits (prepare_proc_params drv params) P"
  unfolding prepare_proc_params_def
  by (auto split: pyval.split intro!: emits_bind_params emits_raise)

lemma emits_out_value: "(\<And>v. P (Getvalue v)) \<Longrightarrow> emits (out_value view drv v) P"
  unfolding out_value_def
  by (auto split: refcursor.split option.split sum.split
      intro!: emits_then_do emits_getcursor emits_getvalue emits_raise emits_return)

lemma emits_output_loop:
  "(\<And>v. P (Getvalue v)) \<Longrightarrow> emits (output_loop view drv outs acc) P"
proof (induction outs arbitrary: acc)
  case Nil
  show ?case by (simp add: emits_return)
next
  case (Cons kv outs)
  obtain key v where kv: "kv = (key, v)" by (cases kv)
  show ?case unfolding kv output_loop.simps
    by (intro emits_then_do emits_out_value Cons)
qed

lemma emits_call_procedure:
  assumes "\<And>obj. P (NewVar obj)" "\<And>v. P (Getvalue v)" "\<And>args. P (Callproc name args)" "P Commit"
  shows "emits (call_procedure view drv name params) P"
  unfolding call_procedure_def get_proc_output_def
  by (auto split: prod.split
      intro!: emits_then_do emits_prepare_proc_params emits_callproc emits_commit
        emits_output_loop emits_return assms)

lemma execute_query_first:
  "\<exists>r evs. execute_query view drv s params tr = (r, tr @ Execute s params # evs)"
proof -
  let ?k = "\<lambda>description. case description of
         Some (col # cols) \<Rightarrow>
           then_do (fetchall drv) (\<lambda>rows. return (project view (col # cols) rows))
       | _ \<Rightarrow> then_do (commit drv) (\<lambda>u. return (empty_projection view))"
  show ?thesis
  proof (cases "cursor_execute drv tr s params")
    case (Inl e)
    then show ?thesis by (simp add: execute_query_def then_do_def execute_def)
  next
    case (Inr d)
    have "emits (?k d) (\<lambda>e. True)"
      by (auto split: option.split list.split intro!: emits_then_do emits_fetchall emits_commit emits_return)
    then obtain r evs where "?k d (tr @ [Execute s params]) = (r, (tr @ [Execute s params]) @ evs)"
      unfolding emits_def by blast
    with Inr show ?thesis by (simp add: execute_query_def then_do_def execute_def)
  qed
qed

section \<open>The statement dispatcher\<close>

text \<open>
  C1.  For every SQL text, \<^const>\<open>execute_sql\<close> takes the procedure path exactly when the
  text starts with the four characters \<^verbatim>\<open>CALL\<close>; the procedure name is then the text
  without its first five characters, and no query is executed and no other procedure
  is called.  Every other text is executed whole as a query, first of all, and no
  procedure is called.
\<close>

theorem execute_sql_dispatch:
  "execute_sql view drv (PStr s) params tr =
     (if take 4 s = ''CALL'' then call_procedure view drv (drop 5 s) params tr
      else execute_query view drv s params tr)
   \<and> (\<exists>r evs. execute_sql view drv (PStr s) params tr = (r, tr @ evs) \<and>
        (if take 4 s = ''CALL'' then list_all (callproc_of (drop 5 s)) evs
         else evs \<noteq> [] \<and> hd evs = Execute s params \<and> list_all (\<lambda>e. \<not> is_callproc e) evs))"
proof (cases "take 4 s = ''CALL''")
  case True
  have "emits (call_procedure view drv (drop 5 s) params) (callproc_of (drop 5 s))"
    by (rule emits_call_procedure) simp_all
  then obtain r evs where "call_procedure view drv (drop 5 s) params tr = (r, tr @ evs)"
    "list_all (callproc_of (drop 5 s)) evs" unfolding emits_def by blast
  with True show ?thesis by (simp add: execute_sql_def)
next
  case False
  have "emits (execute_query view drv s params) (\<lambda>e. \<not> is_callproc e)"
    by (rule emits_execute_query) simp_all
  then obtain r evs where 1: "execute_query view drv s params tr = (r, tr @ evs)"
    "list_all (\<lambda>e. \<not> is_callproc e) evs" unfolding emits_def by blast
  from execute_query_first[of view drv s params tr] 1
  have "evs \<noteq> [] \<and> hd evs = Execute s params" by auto
  with False 1 show ?thesis by (simp add: execute_sql_def)
qed

theorem execute_sql_dispatch_witness:
  "execute_sql QueryView sample_driver (PStr ''CALL my_proc'') (PDict []) [] =
     (Inr (PDict [(''message'', PPhrase Procedure_ok)]), [Callproc ''my_proc'' [], Commit])
   \<and> execute_sql QueryView sample_driver (PStr ''SELECTCALL 1'') (PDict []) [] =
       execute_query QueryView sample_driver ''SELECTCALL 1'' (PDict []) []
   \<and> execute_sql QueryView sample_driver (PStr ''SELECT 1'') (PDict []) [] =
       execute_query QueryView sample_driver ''SELECT 1'' (PDict []) []"
  using execute_sql_dispatch[of QueryView sample_driver "''CALL my_proc''" "PDict []" "[]"]
    execute_sql_dispatch[of QueryView sample_driver "''SELECTCALL 1''" "PDict []" "[]"]
    execute_sql_dispatch[of QueryView sample_driver "''SELECT 1''" "PDict []" "[]"]
  by (simp add: call_procedure_def prepare_proc_params_def then_do_def return_def callproc_def
      commit_def sample_driver_def)

section \<open>Statements without a result set\<close>

text \<open>
  C7.  When the driver reports no result set for the executed statement, the table
  view asks for a commit right after the execution and before it leaves, and it
  returns the empty projection with no columns and no rows; it returns nothing only if
  that commit itself raises.
\<close>

theorem table_mode_without_result_set:
  assumes "cursor_execute drv tr sql params = Inr description"
    and "description = None \<or> description = Some []"
  shows "execute_query DataTableView drv sql params tr =
     ((case connection_commit drv (tr @ [Execute sql params]) of
         None \<Rightarrow> Inr (PDict [(''columns'', PDict []), (''rows'', PList [])])
       | Some e \<Rightarrow> Inl e),
      tr @ [Execute sql params, Commit])"
  using assms
  by (auto simp: execute_query_def then_do_def execute_def commit_def return_def
      split: option.split)

theorem table_mode_without_result_set_witness:
  "cursor_execute sample_driver [] ''DELETE FROM t'' (PDict []) = Inr None
   \<and> execute_query DataTableView sample_driver ''DELETE FROM t'' (PDict []) [] =
       (Inr (PDict [(''columns'', PDict []), (''rows'', PList [])]),
        [Execute ''DELETE FROM t'' (PDict []), Commit])"
proof -
  have 1: "cursor_execute sample_driver [] ''DELETE FROM t'' (PDict []) = Inr None"
    by (simp add: sample_driver_def sample_execute_def)
  from table_mode_without_result_set[OF 1] 1 show ?thesis
    by (simp add: sample_driver_def)
qed

text \<open>The earlier variant commits at the same place; its empty answer lists no columns.\<close>

lemma earlier_variant_commits:
  assumes "cursor_execute drv tr sql params = Inr description"
    and "description = None \<or> description = Some []"
  shows "OracleBaseView_execute_sql drv sql params tr =
     ((case connection_commit drv (tr @ [Execute sql params]) of
         None \<Rightarrow> Inr (PDict [(''columns'', PList []), (''rows'', PList [])])
       | Some e \<Rightarrow> Inl e),
      tr @ [Execute sql params, Commit])"
  using assms
  by (auto simp: OracleBaseView_execute_sql_def then_do_def execute_def commit_def return_def
      split: option.split)

section \<open>The request handler\<close>

lemma run_request_trace:
  "\<exists>r evs. run_request view drv sql params tr = (r, tr @ Acquire # evs)"
proof (cases "pool_acquire drv tr")
  case (Some e)
  then show ?thesis by (simp add: run_request_def)
next
  case None
  obtain r tr' where 1: "then_do (execute_sql view drv sql params)
         (\<lambda>result. then_do (commit drv) (\<lambda>u. return result)) (tr @ [Acquire]) = (r, tr')"
    by (cases "then_do (execute_sql view drv sql params)
         (\<lambda>result. then_do (commit drv) (\<lambda>u. return result)) (tr @ [Acquire])")
  have "emits (execute_sql view drv sql params) (\<lambda>e. True)"
    unfolding execute_sql_def
    by (auto split: pyval.split intro!: emits_raise emits_call_procedure emits_execute_query)
  then have "emits (then_do (execute_sql view drv sql params)
         (\<lambda>result. then_do (commit drv) (\<lambda>u. return result))) (\<lambda>e. True)"
    by (intro emits_then_do emits_commit emits_return) simp_all
  with 1 obtain evs where "tr' = (tr @ [Acquire]) @ evs"
    unfolding emits_def by (metis prod.inject)
  with None 1 show ?thesis by (simp add: run_request_def)
qed

lemma respond_cases:
  "\<exists>b c evs. respond (r, tr) = (Response b c, tr @ evs) \<and>
     ((\<exists>v. b = Data v \<and> c = 200) \<or> (\<exists>e. b = Error (Fixed Database_error) \<and> c = 400 \<and> is_oracle_error e)
      \<or> (\<exists>e. b = Error (Str_of e) \<and> c = 400))"
  by (cases r) auto

lemma then_do_first:
  assumes "m tr = (r, tr @ e # evs)" and "\<And>a. emits (f a) P"
  shows "\<exists>r' evs'. then_do m f tr = (r', tr @ e # evs')"
proof (cases r)
  case (Inl x)
  with assms(1) show ?thesis by (simp add: then_do_def)
next
  case (Inr a)
  from assms(2)[of a] obtain r' evs' where "f a (tr @ e # evs) = (r', (tr @ e # evs) @ evs')"
    unfolding emits_def by blast
  with assms(1) Inr have "then_do m f tr = (r', tr @ e # (evs @ evs'))"
    by (simp add: then_do_def)
  then show ?thesis by blast
qed

lemma call_procedure_empty_first:
  "\<exists>r evs. call_procedure view drv name (PDict []) tr = (r, tr @ Callproc name [] # evs)"
proof (cases "cursor_callproc drv tr name []")
  case (Some e)
  then show ?thesis
    by (simp add: call_procedure_def prepare_proc_params_def then_do_def return_def callproc_def)
next
  case None
  then show ?thesis
    by (cases "connection_commit drv (tr @ [Callproc name []])")
       (simp_all add: call_procedure_def prepare_proc_params_def then_do_def return_def
          callproc_def commit_def)
qed

lemma execute_sql_empty_first:
  "\<exists>r evs. execute_sql view drv (PStr s) (PDict []) tr =
     (r, tr @ (if take 4 s = ''CALL'' then Callproc (drop 5 s) [] else Execute s (PDict [])) # evs)"
  using call_procedure_empty_first[of view drv "drop 5 s" tr]
    execute_query_first[of view drv s "PDict []" tr]
  by (simp add: execute_sql_def)

text \<open>
  C8.  \<^const>\<open>post\<close> always answers: with the data and status 200, or with an error
  message and status 400.  An exception \<open>e\<close> raised while the request is executed is
  caught and logged; when it is a driver error the answer is the fixed database error
  phrase, whatever \<open>e\<close> says, and otherwise, as for a validation error, it is the text of
  \<open>e\<close>.  The two rejections of the body answer with their own phrase.
\<close>

theorem post_catches_errors:
  "(\<exists>b c evs. post view drv data tr = (Response b c, tr @ evs) \<and>
      ((\<exists>v. b = Data v \<and> c = 200) \<or> (\<exists>m. b = Error m \<and> c = 400)))
   \<and> (is_dict data \<and> truthy (dict_get data ''sql'' PNone) \<and>
      run_request view drv (dict_get data ''sql'' PNone) (dict_get data ''params'' (PDict [])) tr
        = (Inl e, tr') \<longrightarrow>
      post view drv data tr =
        (if is_oracle_error e
         then (Response (Error (Fixed Database_error)) 400, tr' @ [Log_database_error e])
         else (Response (Error (Str_of e)) 400, tr' @ [Log_unexpected_error e])))
   \<and> (\<not> is_dict data \<longrightarrow>
        post view drv data tr = (Response (Error (Fixed Bad_data_format)) 400, tr))
   \<and> (is_dict data \<and> \<not> truthy (dict_get data ''sql'' PNone) \<longrightarrow>
        post view drv data tr = (Response (Error (Fixed Sql_not_provided)) 400, tr))"
proof -
  have "\<exists>b c evs. post view drv data tr = (Response b c, tr @ evs) \<and>
      ((\<exists>v. b = Data v \<and> c = 200) \<or> (\<exists>m. b = Error m \<and> c = 400))"
  proof (cases "is_dict data \<and> truthy (dict_get data ''sql'' PNone)")
    case True
    let ?sql = "dict_get data ''sql'' PNone" and ?params = "dict_get data ''params'' (PDict [])"
    obtain r evs where 1: "run_request view drv ?sql ?params tr = (r, tr @ Acquire # evs)"
      using run_request_trace by blast
    obtain b c evs' where 2: "respond (r, tr @ Acquire # evs) = (Response b c, (tr @ Acquire # evs) @ evs')"
      "(\<exists>v. b = Data v \<and> c = 200) \<or> (\<exists>m. b = Error m \<and> c = 400)"
      using respond_cases[of r "tr @ Acquire # evs"] by blast
    from True 1 2 have "post view drv data tr = (Response b c, tr @ (Acquire # evs @ evs'))"
      by (simp add: post_def)
    with 2 show ?thesis by blast
  next
    case False
    then show ?thesis by (auto simp: post_def)
  qed
  then show ?thesis by (auto simp: post_def)
qed

theorem post_catches_errors_witness:
  "post QueryView sample_driver
      (PDict [(''sql'', PStr ''CALL p''), (''params'', PDict [(''d'', PStr ''2024-13-40'')])]) [] =
     (Response (Error (Str_of (ValidationError (Date_conversion ''d'' No_match)))) 400,
      [Acquire, Release, Log_unexpected_error (ValidationError (Date_conversion ''d'' No_match))])
   \<and> post QueryView sample_driver (PDict [(''sql'', PStr ''x'')]) [] =
     (Response (Error (Fixed Database_error)) 400,
      [Acquire, Execute ''x'' (PDict []), Release,
       Log_database_error (OracleError ''ORA-00900: invalid SQL statement'')])
   \<and> post QueryView sample_driver (PList []) [] = (Response (Error (Fixed Bad_data_format)) 400, [])
   \<and> post QueryView sample_driver (PDict [(''sql'', PStr '''')]) [] =
       (Response (Error (Fixed Sql_not_provided)) 400, [])"
proof -
  let ?d1 = "PDict [(''sql'', PStr ''CALL p''), (''params'', PDict [(''d'', PStr ''2024-13-40'')])]"
  let ?d2 = "PDict [(''sql'', PStr ''x'')]"
  have s: "strptime ''2024-13-40'' Format_date = Inl No_match"
    by (simp add: strptime_def one_of_def digit_def)
  have r1: "run_request QueryView sample_driver (dict_get ?d1 ''sql'' PNone)
              (dict_get ?d1 ''params'' (PDict [])) [] =
            (Inl (ValidationError (Date_conversion ''d'' No_match)), [Acquire, Release])"
    by (simp add: run_request_def execute_sql_def call_procedure_def prepare_proc_params_def
        bind_param_def is_out_descriptor_def coerce_def date_shape_def s then_do_def raise_def
        sample_driver_def)
  have r2: "run_request QueryView sample_driver (dict_get ?d2 ''sql'' PNone)
              (dict_get ?d2 ''params'' (PDict [])) [] =
            (Inl (OracleError ''ORA-00900: invalid SQL statement''),
             [Acquire, Execute ''x'' (PDict []), Release])"
    by (simp add: run_request_def execute_sql_def execute_query_def execute_def then_do_def
        sample_driver_def sample_execute_def)
  from post_catches_errors[of QueryView sample_driver ?d1 "[]" "ValidationError (Date_conversion ''d'' No_match)" "[Acquire, Release]"]
    post_catches_errors[of QueryView sample_driver ?d2 "[]" "OracleError ''ORA-00900: invalid SQL statement''" "[Acquire, Execute ''x'' (PDict []), Release]"]
    post_catches_errors[of QueryView sample_driver "PList []" "[]"]
    post_catches_errors[of QueryView sample_driver "PDict [(''sql'', PStr '''')]" "[]"]
    r1 r2
  show ?thesis by simp
qed

text \<open>
  C10.  A body that is a dict with a truthy \<^verbatim>\<open>sql\<close> and no \<^verbatim>\<open>params\<close> key is executed
  with the empty mapping as parameters: once the pool has lent a connection, the
  answer is that of \<^const>\<open>execute_sql\<close> on the text and the empty mapping, followed by
  the commit and the return of the connection, and the first call the driver receives
  is the execution of the whole text with the empty mapping or, for a text that starts
  with \<^verbatim>\<open>CALL\<close>, the call of the procedure with no arguments; when the pool refuses,
  its error is answered.  The handler answers with one of the two rejections of the
  body, and leaves the pool untouched, exactly when the body is not a dict or its
  \<^verbatim>\<open>sql\<close> is missing or falsy.
\<close>

theorem post_without_params:
  "(map_of kvs ''sql'' = Some sql \<and> truthy sql \<and> map_of kvs ''params'' = None \<longrightarrow>
      post view drv (PDict kvs) tr = respond (run_request view drv sql (PDict []) tr)
      \<and> (\<exists>resp evs. post view drv (PDict kvs) tr = (resp, tr @ Acquire # evs)))
   \<and> (fst (post view drv data tr) \<in>
        {Response (Error (Fixed Bad_data_format)) 400, Response (Error (Fixed Sql_not_provided)) 400}
      \<longleftrightarrow> \<not> is_dict data \<or> \<not> truthy (dict_get data ''sql'' PNone))
   \<and> (snd (post view drv data tr) = tr
      \<longleftrightarrow> \<not> is_dict data \<or> \<not> truthy (dict_get data ''sql'' PNone))
   \<and> (map_of kvs ''sql'' = Some (PStr s) \<and> s \<noteq> [] \<and> map_of kvs ''params'' = None \<and>
      pool_acquire drv tr = None \<longrightarrow>
      post view drv (PDict kvs) tr =
        respond (case then_do (execute_sql view drv (PStr s) (PDict []))
                        (\<lambda>result. then_do (commit drv) (\<lambda>u. return result)) (tr @ [Acquire]) of
                   (r, tr') \<Rightarrow> (r, tr' @ [Release]))
      \<and> (\<exists>resp evs. post view drv (PDict kvs) tr =
            (resp, tr @ Acquire #
               (if take 4 s = ''CALL'' then Callproc (drop 5 s) [] else Execute s (PDict [])) # evs)))
   \<and> (map_of kvs ''sql'' = Some sql \<and> truthy sql \<and> pool_acquire drv tr = Some e \<longrightarrow>
      post view drv (PDict kvs) tr = respond (Inl e, tr @ [Acquire]))"
proof -
  have a: "post view drv (PDict kvs) tr = respond (run_request view drv sql (PDict []) tr)
      \<and> (\<exists>resp evs. post view drv (PDict kvs) tr = (resp, tr @ Acquire # evs))"
    if h: "map_of kvs ''sql'' = Some sql" "truthy sql" "map_of kvs ''params'' = None"
  proof -
    have 1: "post view drv (PDict kvs) tr = respond (run_request view drv sql (PDict []) tr)"
      using h by (simp add: post_def)
    obtain r evs where 2: "run_request view drv sql (PDict []) tr = (r, tr @ Acquire # evs)"
      using run_request_trace by blast
    obtain b c evs' where "respond (r, tr @ Acquire # evs) = (Response b c, (tr @ Acquire # evs) @ evs')"
      using respond_cases[of r "tr @ Acquire # evs"] by blast
    with 1 2 show ?thesis by simp
  qed
  have b: "fst (post view drv data tr) \<notin>
        {Response (Error (Fixed Bad_data_format)) 400, Response (Error (Fixed Sql_not_provided)) 400}
       \<and> snd (post view drv data tr) \<noteq> tr"
    if h: "is_dict data" "truthy (dict_get data ''sql'' PNone)"
  proof -
    let ?sql = "dict_get data ''sql'' PNone" and ?params = "dict_get data ''params'' (PDict [])"
    obtain r evs where 1: "run_request view drv ?sql ?params tr = (r, tr @ Acquire # evs)"
      using run_request_trace by blast
    obtain b c evs' where 2: "respond (r, tr @ Acquire # evs) = (Response b c, (tr @ Acquire # evs) @ evs')"
      "(\<exists>v. b = Data v \<and> c = 200) \<or> (\<exists>e. b = Error (Fixed Database_error) \<and> c = 400 \<and> is_oracle_error e)
      \<or> (\<exists>e. b = Error (Str_of e) \<and> c = 400)"
      using respond_cases[of r "tr @ Acquire # evs"] by blast
    from h 1 2 have "post view drv data tr = (Response b c, tr @ (Acquire # evs @ evs'))"
      by (simp add: post_def)
    with 2(2) show ?thesis by auto
  qed
  have c: "fst (post view drv data tr) \<in>
        {Response (Error (Fixed Bad_data_format)) 400, Response (Error (Fixed Sql_not_provided)) 400}
       \<and> snd (post view drv data tr) = tr"
    if "\<not> is_dict data \<or> \<not> truthy (dict_get data ''sql'' PNone)"
    using that by (auto simp: post_def)
  have d: "post view drv (PDict kvs) tr =
        respond (case then_do (execute_sql view drv (PStr s) (PDict []))
                        (\<lambda>result. then_do (commit drv) (\<lambda>u. return result)) (tr @ [Acquire]) of
                   (r, tr') \<Rightarrow> (r, tr' @ [Release]))
      \<and> (\<exists>resp evs. post view drv (PDict kvs) tr =
            (resp, tr @ Acquire #
               (if take 4 s = ''CALL'' then Callproc (drop 5 s) [] else Execute s (PDict [])) # evs))"
    if h: "map_of kvs ''sql'' = Some (PStr s)" "s \<noteq> []" "map_of kvs ''params'' = None"
      "pool_acquire drv tr = None"
  proof -
    let ?ev = "if take 4 s = ''CALL'' then Callproc (drop 5 s) [] else Execute s (PDict [])"
    let ?body = "then_do (execute_sql view drv (PStr s) (PDict []))
                        (\<lambda>result. then_do (commit drv) (\<lambda>u. return result))"
    have 1: "post view drv (PDict kvs) tr =
        respond (case ?body (tr @ [Acquire]) of (r, tr') \<Rightarrow> (r, tr' @ [Release]))"
      using h by (simp add: post_def run_request_def)
    obtain r0 evs0 where "execute_sql view drv (PStr s) (PDict []) (tr @ [Acquire]) =
        (r0, (tr @ [Acquire]) @ ?ev # evs0)"
      using execute_sql_empty_first[of view drv s "tr @ [Acquire]"] by blast
    moreover have "\<And>a. emits (then_do (commit drv) (\<lambda>u. return a)) (\<lambda>e. True)"
      by (intro emits_then_do emits_commit emits_return) simp
    ultimately obtain r evs where 2: "?body (tr @ [Acquire]) = (r, (tr @ [Acquire]) @ ?ev # evs)"
      using then_do_first[where m = "execute_sql view drv (PStr s) (PDict [])"
          and tr = "tr @ [Acquire]" and e = ?ev
          and f = "\<lambda>result. then_do (commit drv) (\<lambda>u. return result)" and P = "\<lambda>e. True"]
      by blast
    obtain b c evs' where "respond (r, tr @ Acquire # ?ev # evs @ [Release]) =
        (Response b c, (tr @ Acquire # ?ev # evs @ [Release]) @ evs')"
      using respond_cases[of r "tr @ Acquire # ?ev # evs @ [Release]"] by blast
    with 1 2 have "post view drv (PDict kvs) tr =
        (Response b c, tr @ Acquire # ?ev # (evs @ [Release] @ evs'))" by simp
    with 1 show ?thesis by blast
  qed
  have f: "post view drv (PDict kvs) tr = respond (Inl e, tr @ [Acquire])"
    if "map_of kvs ''sql'' = Some sql" "truthy sql" "pool_acquire drv tr = Some e"
    using that by (simp add: post_def run_request_def)
  from a b c d f show ?thesis by blast
qed

theorem post_without_params_witness:
  "post DataTableView sample_driver (PDict [(''sql'', PStr ''DELETE FROM t'')]) [] =
     (Response (Data (PDict [(''columns'', PDict []), (''rows'', PList [])])) 200,
      [Acquire, Execute ''DELETE FROM t'' (PDict []), Commit, Commit, Release])
   \<and> post QueryView sample_driver (PDict [(''sql'', PStr ''CALL p'')]) [] =
     (Response (Data (PDict [(''message'', PPhrase Procedure_ok)])) 200,
      [Acquire, Callproc ''p'' [], Commit, Commit, Release])
   \<and> post DataTableView sample_driver (PDict [(''params'', PDict [])]) [] =
       (Response (Error (Fixed Sql_not_provided)) 400, [])"
proof -
  have r3: "post DataTableView sample_driver (PDict [(''params'', PDict [])]) [] =
       (Response (Error (Fixed Sql_not_provided)) 400, [])"
    by (simp add: post_def)
  have acq: "pool_acquire sample_driver [] = None" by (simp add: sample_driver_def)
  have k1: "map_of [(''sql'', PStr ''DELETE FROM t'')] ''sql'' = Some (PStr ''DELETE FROM t'')"
    "map_of [(''sql'', PStr ''DELETE FROM t'')] ''params'' = None" "''DELETE FROM t'' \<noteq> []"
    by simp_all
  have k2: "map_of [(''sql'', PStr ''CALL p'')] ''sql'' = Some (PStr ''CALL p'')"
    "map_of [(''sql'', PStr ''CALL p'')] ''params'' = None" "''CALL p'' \<noteq> []"
    by simp_all
  have e1: "post DataTableView sample_driver (PDict [(''sql'', PStr ''DELETE FROM t'')]) [] =
      respond (case then_do (execute_sql DataTableView sample_driver (PStr ''DELETE FROM t'') (PDict []))
                      (\<lambda>result. then_do (commit sample_driver) (\<lambda>u. return result)) ([] @ [Acquire]) of
                 (r, tr') \<Rightarrow> (r, tr' @ [Release]))"
    using post_without_params[where kvs = "[(''sql'', PStr ''DELETE FROM t'')]"
        and sql = "PStr ''DELETE FROM t''" and s = "''DELETE FROM t''" and view = DataTableView
        and drv = sample_driver and tr = "[]" and data = PNone and e = "OtherError []"] k1 acq
    by blast
  have e2: "post QueryView sample_driver (PDict [(''sql'', PStr ''CALL p'')]) [] =
      respond (case then_do (execute_sql QueryView sample_driver (PStr ''CALL p'') (PDict []))
                      (\<lambda>result. then_do (commit sample_driver) (\<lambda>u. return result)) ([] @ [Acquire]) of
                 (r, tr') \<Rightarrow> (r, tr' @ [Release]))"
    using post_without_params[where kvs = "[(''sql'', PStr ''CALL p'')]"
        and sql = "PStr ''CALL p''" and s = "''CALL p''" and view = QueryView
        and drv = sample_driver and tr = "[]" and data = PNone and e = "OtherError []"] k2 acq
    by blast
  have r1: "then_do (execute_sql DataTableView sample_driver (PStr ''DELETE FROM t'') (PDict []))
              (\<lambda>result. then_do (commit sample_driver) (\<lambda>u. return result)) ([] @ [Acquire]) =
            (Inr (PDict [(''columns'', PDict []), (''rows'', PList [])]),
             [Acquire, Execute ''DELETE FROM t'' (PDict []), Commit, Commit])"
    by (simp add: sample_driver_def sample_execute_def execute_sql_def execute_query_def
        execute_def commit_def then_do_def return_def)
  have r2: "then_do (execute_sql QueryView sample_driver (PStr ''CALL p'') (PDict []))
              (\<lambda>result. then_do (commit sample_driver) (\<lambda>u. return result)) ([] @ [Acquire]) =
            (Inr (PDict [(''message'', PPhrase Procedure_ok)]),
             [Acquire, Callproc ''p'' [], Commit, Commit])"
    by (simp add: sample_driver_def execute_sql_def call_procedure_def prepare_proc_params_def
        callproc_def commit_def then_do_def return_def)
  show ?thesis unfolding e1 e2 r1 r2 r3 by simp
qed

section \<open>The table projection\<close>

lemma update_fresh: "k \<notin> fst ` set al \<Longrightarrow> AList.update k v al = al @ [(k, v)]"
  by (induction al) auto

lemma fold_update_distinct:
  "distinct (map fst (acc @ kvs)) \<Longrightarrow> fold (\<lambda>(k, v) d. AList.update k v d) kvs acc = acc @ kvs"
proof (induction kvs arbitrary: acc)
  case Nil
  then show ?case by simp
next
  case (Cons kv kvs)
  obtain k v where kv: "kv = (k, v)" by (cases kv)
  from Cons.prems have "k \<notin> fst ` set acc" by (auto simp: kv)
  then have u: "AList.update k v acc = acc @ [(k, v)]" by (rule update_fresh)
  from Cons.prems have "distinct (map fst ((acc @ [(k, v)]) @ kvs))" by (simp add: kv)
  from Cons.IH[OF this] u show ?case by (simp add: kv)
qed

lemma dict_of_distinct: "distinct (map fst kvs) \<Longrightarrow> dict_of kvs = kvs"
  using fold_update_distinct[of "[]" kvs] by (simp add: dict_of_def)

lemma column_type_mapping_checked:
  "list_all (\<lambda>(n, v). v \<in> set (map (\<lambda>sem. PList [PStr sem, PStr n]) semantic_types))
     column_type_mapping"
  by (simp add: column_type_mapping_def semantic_types_def)

lemma column_type_mapping_entries:
  assumes "map_of column_type_mapping n = Some v"
  shows "\<exists>sem. sem \<in> set semantic_types \<and> v = PList [PStr sem, PStr n]"
proof -
  from assms have "(n, v) \<in> set column_type_mapping" by (rule map_of_SomeD)
  with column_type_mapping_checked
  have "v \<in> set (map (\<lambda>sem. PList [PStr sem, PStr n]) semantic_types)"
    unfolding list_all_iff by blast
  then show ?thesis by auto
qed

text \<open>
  The tag that \<^const>\<open>get_column_type\<close> gives a column of a type in the table is not one
  of the four semantic types: it is a list of two strings.
\<close>

theorem table_projection_counterexample:
  "get_column_type (DbType ''DB_TYPE_NUMBER'') = PList [PStr ''number'', PStr ''DB_TYPE_NUMBER'']
   \<and> get_column_type (DbType ''DB_TYPE_NUMBER'') \<notin> set (map PStr semantic_types)"
  by (simp add: get_column_type_def column_type_mapping_def semantic_types_def)

text \<open>
  C5, as amended.  The lookup is total.  A native type whose name is in the table is
  mapped to the list of one of the four semantic types and the name of the native type;
  any other native type is mapped to the string \<^verbatim>\<open>string\<close>.  A result of two columns
  with different names and two rows is projected to a mapping of these two names to
  their tags, in the order of the columns, and to the two rows in the order fetched,
  each the list of its two values.
\<close>

theorem table_projection:
  "(case map_of column_type_mapping (type_name t) of
      Some v \<Rightarrow> \<exists>sem. sem \<in> set semantic_types \<and>
                  get_column_type t = PList [PStr sem, PStr (type_name t)]
    | None \<Rightarrow> get_column_type t = PStr ''string'')
   \<and> (cursor_execute drv tr sql params = Inr (Some [(n1, t1), (n2, t2)]) \<and> n1 \<noteq> n2 \<and>
      cursor_fetchall drv (tr @ [Execute sql params]) = Inr [[a, b], [c, d]] \<longrightarrow>
      execute_query DataTableView drv sql params tr =
        (Inr (PDict [(''columns'', PDict [(n1, get_column_type t1), (n2, get_column_type t2)]),
                     (''rows'', PList [PList [a, b], PList [c, d]])]),
         tr @ [Execute sql params, Fetchall]))"
proof -
  have 1: "case map_of column_type_mapping (type_name t) of
      Some v \<Rightarrow> \<exists>sem. sem \<in> set semantic_types \<and>
                  get_column_type t = PList [PStr sem, PStr (type_name t)]
    | None \<Rightarrow> get_column_type t = PStr ''string''"
    using column_type_mapping_entries[of "type_name t"]
    by (auto simp: get_column_type_def split: option.split)
  have 2: "execute_query DataTableView drv sql params tr =
        (Inr (PDict [(''columns'', PDict [(n1, get_column_type t1), (n2, get_column_type t2)]),
                     (''rows'', PList [PList [a, b], PList [c, d]])]),
         tr @ [Execute sql params, Fetchall])"
    if h: "cursor_execute drv tr sql params = Inr (Some [(n1, t1), (n2, t2)])" "n1 \<noteq> n2"
      "cursor_fetchall drv (tr @ [Execute sql params]) = Inr [[a, b], [c, d]]"
  proof -
    have "dict_of (map (\<lambda>(name, t). (name, get_column_type t)) [(n1, t1), (n2, t2)]) =
            [(n1, get_column_type t1), (n2, get_column_type t2)]"
      using h(2) by (simp add: dict_of_distinct)
    with h show ?thesis
      by (simp add: execute_query_def then_do_def execute_def fetchall_def return_def table_def)
  qed
  from 1 2 show ?thesis by blast
qed

theorem table_projection_witness:
  "get_column_type (DbType ''DB_TYPE_DATE'') = PList [PStr ''date'', PStr ''DB_TYPE_DATE'']
   \<and> get_column_type (DbType ''DB_TYPE_OBJECT'') = PStr ''string''
   \<and> execute_query DataTableView sample_driver ''SELECT * FROM t'' (PDict []) [] =
       (Inr (PDict [(''columns'', PDict [(''ID'', PList [PStr ''number'', PStr ''DB_TYPE_NUMBER'']),
                                         (''NAME'', PList [PStr ''string'', PStr ''DB_TYPE_VARCHAR''])]),
                    (''rows'', PList [PList [PInt 1, PStr ''a''], PList [PInt 2, PStr ''b'']])]),
        [Execute ''SELECT * FROM t'' (PDict []), Fetchall])"
proof -
  have g: "get_column_type (DbType ''DB_TYPE_DATE'') = PList [PStr ''date'', PStr ''DB_TYPE_DATE'']"
    "get_column_type (DbType ''DB_TYPE_OBJECT'') = PStr ''string''"
    "get_column_type (DbType ''DB_TYPE_NUMBER'') = PList [PStr ''number'', PStr ''DB_TYPE_NUMBER'']"
    "get_column_type (DbType ''DB_TYPE_VARCHAR'') = PList [PStr ''string'', PStr ''DB_TYPE_VARCHAR'']"
    by (simp_all add: get_column_type_def column_type_mapping_def)
  have e: "cursor_execute sample_driver [] ''SELECT * FROM t'' (PDict []) =
             Inr (Some [(''ID'', DbType ''DB_TYPE_NUMBER''), (''NAME'', DbType ''DB_TYPE_VARCHAR'')])"
    "cursor_fetchall sample_driver ([] @ [Execute ''SELECT * FROM t'' (PDict [])]) =
       Inr [[PInt 1, PStr ''a''], [PInt 2, PStr ''b'']]"
    by (simp_all add: sample_driver_def sample_execute_def sample_description_def sample_rows_def)
  from table_projection[of "DbType ''DB_TYPE_DATE''" sample_driver "[]" "''SELECT * FROM t''" "PDict []"
      "''ID''" "DbType ''DB_TYPE_NUMBER''" "''NAME''" "DbType ''DB_TYPE_VARCHAR''"
      "PInt 1" "PStr ''a''" "PInt 2" "PStr ''b''"] e g
  show ?thesis by simp
qed

section \<open>The output extractor\<close>











section \<open>The type of an OUT parameter\<close>

text \<open>
  An OUT descriptor that names a type the driver module does not have is not refused
  ahead of the request: the request takes a connection, the lookup raises an
  \<^verbatim>\<open>AttributeError\<close> while the parameters are bound, and the handler answers with the
  text of that exception and logs it as unexpected.
\<close>

theorem out_type_resolution_counterexample:
  "post DataTableView sample_driver
     (PDict [(''sql'', PStr ''CALL p''),
             (''params'', PDict [(''o'', PDict [(''dir'', PStr ''OUT''), (''type'', PStr ''NOPE'')])])]) [] =
   (Response (Error (Str_of (AttributeError ''NOPE''))) 400,
    [Acquire, Release, Log_unexpected_error (AttributeError ''NOPE'')])"
  by (simp add: post_def run_request_def execute_sql_def call_procedure_def
      prepare_proc_params_def bind_param_def is_out_descriptor_def out_var_def then_do_def
      raise_def sample_driver_def sample_attr_def)

lemma out_descriptor_type:
  assumes "is_out_descriptor v" and "dict_get v ''type'' PNone = PStr name"
  shows "out_var drv v = (case module_attr drv name of
                            None \<Rightarrow> raise (AttributeError name)
                          | Some obj \<Rightarrow> new_var drv obj)"
proof -
  from assms(1) obtain d where v: "v = PDict d"
    by (cases v) (simp_all add: is_out_descriptor_def)
  from assms(2) have "map_of d ''type'' = Some (PStr name)"
    by (simp add: v split: option.splits)
  then show ?thesis by (simp add: out_var_def v)
qed

lemma bind_params_append:
  "bind_params drv (xs @ ys) acc tr =
     (case bind_params drv xs acc tr of
        (Inl e, tr') \<Rightarrow> (Inl e, tr')
      | (Inr acc', tr') \<Rightarrow> bind_params drv ys acc' tr')"
proof (induction xs arbitrary: acc tr)
  case Nil
  show ?case by (simp add: return_def)
next
  case (Cons kv xs)
  obtain k v where kv: "kv = (k, v)" by (cases kv)
  show ?case
  proof (cases "bind_param drv k v acc tr")
    case (Pair r tr1)
    show ?thesis
    proof (cases r)
      case (Inl e)
      with Pair show ?thesis by (simp add: kv then_do_def)
    next
      case (Inr acc1)
      with Pair Cons.IH[of acc1 tr1] show ?thesis by (simp add: kv then_do_def)
    qed
  qed
qed

text \<open>
  C9, as amended.  The type an OUT descriptor names is looked up by its name among the
  attributes of the driver module when the parameter is bound.  A name found there is
  handed to \<^verbatim>\<open>cursor.var\<close>, which makes the variable or raises; a name not found
  raises an \<^verbatim>\<open>AttributeError\<close> with that name.  The request of a procedure call with
  such a descriptor among its parameters, at any place, once the parameters before it
  are bound, ends, after it has taken and given back a connection, with the 400 answer
  that carries the text of that exception.
\<close>

theorem out_type_resolution:
  "(is_out_descriptor v \<and> dict_get v ''type'' PNone = PStr name \<longrightarrow>
      bind_param drv key v (ps, outs) tr =
        (case module_attr drv name of
           None \<Rightarrow> (Inl (AttributeError name), tr)
         | Some obj \<Rightarrow>
             (case cursor_var drv tr obj of
                Inl e \<Rightarrow> (Inl e, tr @ [NewVar obj])
              | Inr t \<Rightarrow> (Inr (ps @ [OutVar (Var (length tr) t)],
                                AList.update key (Var (length tr) t) outs),
                           tr @ [NewVar obj]))))
   \<and> (is_out_descriptor v \<and> dict_get v ''type'' PNone = PStr name \<and>
      module_attr drv name = None \<and> pool_acquire drv tr = None \<and> take 4 s = ''CALL'' \<and>
      map_of kvs ''sql'' = Some (PStr s) \<and>
      map_of kvs ''params'' = Some (PDict (before @ (key, v) # rest)) \<and>
      bind_params drv before ([], []) (tr @ [Acquire]) = (Inr acc, tr') \<longrightarrow>
      post view drv (PDict kvs) tr =
        (Response (Error (Str_of (AttributeError name))) 400,
         tr' @ [Release, Log_unexpected_error (AttributeError name)]))"
proof -
  have a: "bind_param drv key v (ps, outs) tr =
        (case module_attr drv name of
           None \<Rightarrow> (Inl (AttributeError name), tr)
         | Some obj \<Rightarrow>
             (case cursor_var drv tr obj of
                Inl e \<Rightarrow> (Inl e, tr @ [NewVar obj])
              | Inr t \<Rightarrow> (Inr (ps @ [OutVar (Var (length tr) t)],
                                AList.update key (Var (length tr) t) outs),
                           tr @ [NewVar obj])))"
    if "is_out_descriptor v" "dict_get v ''type'' PNone = PStr name" for tr ps outs
    using that out_descriptor_type[OF that, of drv]
    by (simp add: bind_param_def then_do_def raise_def return_def new_var_def
        split: option.split sum.split)
  have b: "post view drv (PDict kvs) tr =
        (Response (Error (Str_of (AttributeError name))) 400,
         tr' @ [Release, Log_unexpected_error (AttributeError name)])"
    if h: "is_out_descriptor v" "dict_get v ''type'' PNone = PStr name"
      "module_attr drv name = None" "pool_acquire drv tr = None" "take 4 s = ''CALL''"
      "map_of kvs ''sql'' = Some (PStr s)"
      "map_of kvs ''params'' = Some (PDict (before @ (key, v) # rest))"
      "bind_params drv before ([], []) (tr @ [Acquire]) = (Inr acc, tr')"
  proof -
    from h(5) have s: "s \<noteq> []" by auto
    obtain ps outs where acc: "acc = (ps, outs)" by (cases acc)
    have "bind_param drv key v (ps, outs) tr' = (Inl (AttributeError name), tr')"
      using a[OF h(1,2), of ps outs tr'] h(3) by simp
    with h(8) have "bind_params drv (before @ (key, v) # rest) ([], []) (tr @ [Acquire]) =
        (Inl (AttributeError name), tr')"
      by (simp add: bind_params_append acc then_do_def)
    then have "call_procedure view drv (drop 5 s) (PDict (before @ (key, v) # rest)) (tr @ [Acquire]) =
         (Inl (AttributeError name), tr')"
      by (simp add: call_procedure_def prepare_proc_params_def then_do_def)
    with h s show ?thesis
      by (simp add: post_def run_request_def execute_sql_def then_do_def)
  qed
  from a b show ?thesis by blast
qed

theorem out_type_resolution_witness:
  "bind_param sample_driver ''o'' (PDict [(''dir'', PStr ''OUT''), (''type'', PStr ''NOPE'')]) ([], []) [] =
     (Inl (AttributeError ''NOPE''), [])
   \<and> post QueryView sample_driver
       (PDict [(''sql'', PStr ''CALL p''),
               (''params'', PDict [(''a'', PInt 1),
                                   (''o'', PDict [(''dir'', PStr ''OUT''), (''type'', PStr ''NOPE'')])])]) [] =
     (Response (Error (Str_of (AttributeError ''NOPE''))) 400,
      [Acquire, Release, Log_unexpected_error (AttributeError ''NOPE'')])"
proof -
  let ?v = "PDict [(''dir'', PStr ''OUT''), (''type'', PStr ''NOPE'')]"
  let ?kvs = "[(''sql'', PStr ''CALL p''), (''params'', PDict ([(''a'', PInt 1)] @ (''o'', ?v) # []))]"
  have v: "is_out_descriptor ?v" "dict_get ?v ''type'' PNone = PStr ''NOPE''"
    by (simp_all add: is_out_descriptor_def)
  have d: "module_attr sample_driver ''NOPE'' = None" "pool_acquire sample_driver [] = None"
    by (simp_all add: sample_driver_def sample_attr_def)
  have k: "take 4 ''CALL p'' = ''CALL''" "map_of ?kvs ''sql'' = Some (PStr ''CALL p'')"
    "map_of ?kvs ''params'' = Some (PDict ([(''a'', PInt 1)] @ (''o'', ?v) # []))"
    by simp_all
  have b: "bind_params sample_driver [(''a'', PInt 1)] ([], []) ([] @ [Acquire]) =
             (Inr ([Value (PInt 1)], []), [Acquire])"
    by (simp add: bind_param_def is_out_descriptor_def coerce_def then_do_def return_def)
  note t = out_type_resolution[where v = ?v and name = "''NOPE''" and drv = sample_driver
      and key = "''o''" and ps = "[]" and outs = "[]" and tr = "[]" and s = "''CALL p''"
      and kvs = ?kvs and before = "[(''a'', PInt 1)]" and rest = "[]"
      and acc = "([Value (PInt 1)], [])" and tr' = "[Acquire]" and view = QueryView]
  have 1: "bind_param sample_driver ''o'' ?v ([], []) [] = (Inl (AttributeError ''NOPE''), [])"
    using t v d by simp
  have 2: "post QueryView sample_driver (PDict ?kvs) [] =
     (Response (Error (Str_of (AttributeError ''NOPE''))) 400,
      [Acquire] @ [Release, Log_unexpected_error (AttributeError ''NOPE'')])"
    using t v d k b by blast
  from 1 2 show ?thesis by simp
qed

section \<open>What \<^const>\<open>strptime\<close> does on texts of the two patterns\<close>

text \<open>
  On a text of digits in the places of the pattern, a group of two digits followed by a
  character that is not a digit matches both digits or nothing, so the matcher reads
  the fields as written; the text is converted exactly when the fields are a date (and
  a time of day) of the calendar.
\<close>

lemma digit_cases:
  "digit c \<Longrightarrow> c = CHR ''0'' \<or> c = CHR ''1'' \<or> c = CHR ''2'' \<or> c = CHR ''3'' \<or> c = CHR ''4''
     \<or> c = CHR ''5'' \<or> c = CHR ''6'' \<or> c = CHR ''7'' \<or> c = CHR ''8'' \<or> c = CHR ''9''"
  by (simp add: digit_def one_of_def)

lemma digit_not_space: "digit c \<Longrightarrow> \<not> is_space c"
  by (drule digit_cases) (auto simp: is_space_def)

lemma digit_val_le: "digit c \<Longrightarrow> digit_val c \<le> 9"
  by (drule digit_cases) (auto simp: digit_val_def)

lemma strip_digits: "digit a \<Longrightarrow> digit b \<Longrightarrow> strip (a # cs @ [b]) = a # cs @ [b]"
  by (simp add: strip_def digit_not_space)

lemma py_int_2: "digit a \<Longrightarrow> digit b \<Longrightarrow> py_int [a, b] = decimal [a, b]"
  using strip_digits[of a b "[]"] by (simp add: py_int_def)

lemma py_int_4: "digit a \<Longrightarrow> digit d \<Longrightarrow> py_int [a, b, c, d] = decimal [a, b, c, d]"
  using strip_digits[of a d "[b, c]"] by (simp add: py_int_def)

lemma match_lit: "match_seq (Lit x # ds) (x # r) =
    map (\<lambda>(caps, r'). ((Lit x, [x]) # caps, r')) (match_seq ds r)"
  by simp

lemma match_lit_fail: "c \<noteq> x \<Longrightarrow> match_seq (Lit x # ds) (c # r) = []"
  by simp

lemma match_year:
  "digit a \<Longrightarrow> digit b \<Longrightarrow> digit c \<Longrightarrow> digit d \<Longrightarrow>
   match_seq (Dir_Y # ds) (a # b # c # d # r) =
     map (\<lambda>(caps, r'). ((Dir_Y, [a, b, c, d]) # caps, r')) (match_seq ds r)"
  by simp

lemma match_month:
  assumes "digit e" "digit f" "\<not> digit x"
  shows "match_seq (Dir_m # Lit x # ds) (e # f # x # r) =
    (if 1 \<le> decimal [e, f] \<and> decimal [e, f] \<le> 12
     then map (\<lambda>(caps, r'). ((Dir_m, [e, f]) # caps, r')) (match_seq (Lit x # ds) (x # r))
     else [])"
proof -
  have fail: "match_seq (Lit x # ds) (c # r') = []" if "digit c" for c r'
    using that assms(3) by (intro match_lit_fail) auto
  have "match_seq (Dir_m # Lit x # ds) (e # f # x # r) =
      concat (map (\<lambda>(cap, rest). map (\<lambda>(caps, r). ((Dir_m, cap) # caps, r))
        (match_seq (Lit x # ds) rest)) (match_dir Dir_m (e # f # x # r)))"
    by (rule match_seq.simps)
  also have "\<dots> = (if 1 \<le> decimal [e, f] \<and> decimal [e, f] \<le> 12
     then map (\<lambda>(caps, r'). ((Dir_m, [e, f]) # caps, r')) (match_seq (Lit x # ds) (x # r))
     else [])"
    using assms(1,2)[THEN digit_cases]
    by (elim disjE) (simp_all add: fail one_of_def digit_def decimal_def digit_val_def
        del: match_seq.simps)
  finally show ?thesis .
qed


lemma match_day_end:
  assumes "digit g" "digit h"
  shows "match_seq [Dir_d] [g, h] =
    (if 1 \<le> decimal [g, h] \<and> decimal [g, h] \<le> 31
     then ([(Dir_d, [g, h])], []) # (if g = CHR ''0'' then [] else [([(Dir_d, [g])], [h])])
     else if g = CHR ''0'' then [] else [([(Dir_d, [g])], [h])])"
  using assms[THEN digit_cases]
  by (elim disjE) (simp_all add: one_of_def digit_def decimal_def digit_val_def)

lemma match_second_end:
  assumes "digit p" "digit q"
  shows "match_seq [Dir_S] [p, q] =
    (if decimal [p, q] \<le> 61
     then [([(Dir_S, [p, q])], []), ([(Dir_S, [p])], [q])]
     else [([(Dir_S, [p])], [q])])"
  using assms[THEN digit_cases]
  by (elim disjE) (simp_all add: one_of_def digit_def decimal_def digit_val_def)

lemma match_spaces_fail: "digit c \<Longrightarrow> match_seq (Spaces # ds) (c # r) = []"
  by (simp add: digit_not_space)

lemma is_space_blank: "is_space (CHR '' '')"
  by (simp add: is_space_def)

lemma match_one_space:
  "digit p \<Longrightarrow> match_seq (Spaces # ds) (CHR '' '' # p # r) =
     map (\<lambda>(caps, r'). ((Spaces, '' '') # caps, r')) (match_seq ds (p # r))"
  by (simp add: digit_not_space is_space_blank)

lemma match_day_spaces:
  assumes "digit g" "digit h" "digit p"
  shows "match_seq (Dir_d # Spaces # ds) (g # h # CHR '' '' # p # r) =
    (if 1 \<le> decimal [g, h] \<and> decimal [g, h] \<le> 31
     then map (\<lambda>(caps, r'). ((Dir_d, [g, h]) # caps, r'))
            (match_seq (Spaces # ds) (CHR '' '' # p # r))
     else [])"
proof -
  have fail: "match_seq (Spaces # ds) (c # r') = []" if "digit c" for c r'
    using that by (rule match_spaces_fail)
  have "match_seq (Dir_d # Spaces # ds) (g # h # CHR '' '' # p # r) =
      concat (map (\<lambda>(cap, rest). map (\<lambda>(caps, r). ((Dir_d, cap) # caps, r))
        (match_seq (Spaces # ds) rest)) (match_dir Dir_d (g # h # CHR '' '' # p # r)))"
    by (rule match_seq.simps)
  also have "\<dots> = (if 1 \<le> decimal [g, h] \<and> decimal [g, h] \<le> 31
     then map (\<lambda>(caps, r'). ((Dir_d, [g, h]) # caps, r'))
            (match_seq (Spaces # ds) (CHR '' '' # p # r))
     else [])"
    using assms(1,2)[THEN digit_cases]
    by (elim disjE) (simp_all add: fail one_of_def digit_def decimal_def digit_val_def
        del: match_seq.simps)
  finally show ?thesis .
qed

lemma match_hour:
  assumes "digit p" "digit q" "\<not> digit x"
  shows "match_seq (Dir_H # Lit x # ds) (p # q # x # r) =
    (if decimal [p, q] \<le> 23
     then map (\<lambda>(caps, r'). ((Dir_H, [p, q]) # caps, r')) (match_seq (Lit x # ds) (x # r))
     else [])"
proof -
  have fail: "match_seq (Lit x # ds) (c # r') = []" if "digit c" for c r'
    using that assms(3) by (intro match_lit_fail) auto
  have "match_seq (Dir_H # Lit x # ds) (p # q # x # r) =
      concat (map (\<lambda>(cap, rest). map (\<lambda>(caps, r). ((Dir_H, cap) # caps, r))
        (match_seq (Lit x # ds) rest)) (match_dir Dir_H (p # q # x # r)))"
    by (rule match_seq.simps)
  also have "\<dots> = (if decimal [p, q] \<le> 23
     then map (\<lambda>(caps, r'). ((Dir_H, [p, q]) # caps, r')) (match_seq (Lit x # ds) (x # r))
     else [])"
    using assms(1,2)[THEN digit_cases]
    by (elim disjE) (simp_all add: fail one_of_def digit_def decimal_def digit_val_def
        del: match_seq.simps)
  finally show ?thesis .
qed

lemma match_minute:
  assumes "digit p" "digit q" "\<not> digit x"
  shows "match_seq (Dir_M # Lit x # ds) (p # q # x # r) =
    (if decimal [p, q] \<le> 59
     then map (\<lambda>(caps, r'). ((Dir_M, [p, q]) # caps, r')) (match_seq (Lit x # ds) (x # r))
     else [])"
proof -
  have fail: "match_seq (Lit x # ds) (c # r') = []" if "digit c" for c r'
    using that assms(3) by (intro match_lit_fail) auto
  have "match_seq (Dir_M # Lit x # ds) (p # q # x # r) =
      concat (map (\<lambda>(cap, rest). map (\<lambda>(caps, r). ((Dir_M, cap) # caps, r))
        (match_seq (Lit x # ds) rest)) (match_dir Dir_M (p # q # x # r)))"
    by (rule match_seq.simps)
  also have "\<dots> = (if decimal [p, q] \<le> 59
     then map (\<lambda>(caps, r'). ((Dir_M, [p, q]) # caps, r')) (match_seq (Lit x # ds) (x # r))
     else [])"
    using assms(1,2)[THEN digit_cases]
    by (elim disjE) (simp_all add: fail one_of_def digit_def decimal_def digit_val_def
        del: match_seq.simps)
  finally show ?thesis .
qed

lemma not_digit_dash: "\<not> digit (CHR ''-'')" and not_digit_colon: "\<not> digit (CHR '':'')"
  by (simp_all add: digit_def one_of_def)

lemma days_in_month_le: "days_in_month y m \<le> 31"
  by (simp add: days_in_month_def)

lemma strptime_date_digits:
  assumes "digit a" "digit b" "digit c" "digit d" "digit e" "digit f" "digit g" "digit h"
  shows "strptime [a, b, c, d, CHR ''-'', e, f, CHR ''-'', g, h] Format_date =
    (let dt = DateTime (decimal [a, b, c, d]) (decimal [e, f]) (decimal [g, h]) 0 0 0
     in if valid_datetime dt then Inr dt
        else Inl (if 1 \<le> decimal [e, f] \<and> decimal [e, f] \<le> 12
                  then (if 1 \<le> decimal [g, h] \<and> decimal [g, h] \<le> 31 then Out_of_range
                        else if g = CHR ''0'' then No_match else Unconverted_data [h])
                  else No_match))"
proof -
  have m: "match_seq (regex Format_date) [a, b, c, d, CHR ''-'', e, f, CHR ''-'', g, h] =
    (if 1 \<le> decimal [e, f] \<and> decimal [e, f] \<le> 12
     then map (\<lambda>(caps, r). ((Dir_Y, [a, b, c, d]) # (Lit (CHR ''-''), ''-'') # (Dir_m, [e, f])
                 # (Lit (CHR ''-''), ''-'') # caps, r)) (match_seq [Dir_d] [g, h])
     else [])"
    using assms
    by (simp add: match_year match_lit match_month not_digit_dash case_prod_beta comp_def
        del: match_seq.simps)
  have d31: "decimal [g, h] \<le> 31" if "decimal [g, h] \<le> days_in_month y mo" for y mo
    using that days_in_month_le[of y mo] by linarith
  show ?thesis
    unfolding strptime_def m match_day_end[OF assms(7,8)]
    using assms d31
    by (auto simp: group_def py_int_2 py_int_4 valid_datetime_def Let_def)
qed

lemma strptime_datetime_digits:
  assumes "digit a" "digit b" "digit c" "digit d" "digit e" "digit f" "digit g" "digit h"
    and "digit p" "digit q" "digit u" "digit v" "digit w" "digit z"
  shows "strptime [a, b, c, d, CHR ''-'', e, f, CHR ''-'', g, h, CHR '' '',
                   p, q, CHR '':'', u, v, CHR '':'', w, z] Format_datetime =
    (let dt = DateTime (decimal [a, b, c, d]) (decimal [e, f]) (decimal [g, h])
                (decimal [p, q]) (decimal [u, v]) (decimal [w, z])
     in if valid_datetime dt then Inr dt
        else Inl (if 1 \<le> decimal [e, f] \<and> decimal [e, f] \<le> 12 \<and>
                     1 \<le> decimal [g, h] \<and> decimal [g, h] \<le> 31 \<and>
                     decimal [p, q] \<le> 23 \<and> decimal [u, v] \<le> 59
                  then (if decimal [w, z] \<le> 61 then Out_of_range else Unconverted_data [z])
                  else No_match))"
proof -
  have m: "match_seq (regex Format_datetime)
             [a, b, c, d, CHR ''-'', e, f, CHR ''-'', g, h, CHR '' '',
              p, q, CHR '':'', u, v, CHR '':'', w, z] =
    (if 1 \<le> decimal [e, f] \<and> decimal [e, f] \<le> 12 \<and>
        1 \<le> decimal [g, h] \<and> decimal [g, h] \<le> 31 \<and>
        decimal [p, q] \<le> 23 \<and> decimal [u, v] \<le> 59
     then map (\<lambda>(caps, r). ((Dir_Y, [a, b, c, d]) # (Lit (CHR ''-''), ''-'') # (Dir_m, [e, f])
                 # (Lit (CHR ''-''), ''-'') # (Dir_d, [g, h]) # (Spaces, '' '')
                 # (Dir_H, [p, q]) # (Lit (CHR '':''), '':'') # (Dir_M, [u, v])
                 # (Lit (CHR '':''), '':'') # caps, r)) (match_seq [Dir_S] [w, z])
     else [])"
    using assms
    by (simp add: match_year match_lit match_month match_day_spaces match_one_space
        match_hour match_minute not_digit_dash not_digit_colon case_prod_beta comp_def
        del: match_seq.simps)
  have d31: "decimal [g, h] \<le> 31" if "decimal [g, h] \<le> days_in_month y mo" for y mo
    using that days_in_month_le[of y mo] by linarith
  show ?thesis
    unfolding strptime_def m match_second_end[OF assms(13,14)]
    using assms d31
    by (auto simp: group_def py_int_2 py_int_4 valid_datetime_def Let_def)
qed

lemma fullmatch_DigitE:
  assumes "fullmatch (Digit # ps) s"
  obtains c cs where "s = c # cs" "digit c" "fullmatch ps cs"
  using assms by (cases s) simp_all

lemma fullmatch_ExactlyE:
  assumes "fullmatch (Exactly x # ps) s"
  obtains cs where "s = x # cs" "fullmatch ps cs"
  using assms by (cases s) simp_all

lemma fullmatch_NilE:
  assumes "fullmatch [] s"
  obtains "s = []"
  using assms by simp

lemma date_patternD:
  assumes "fullmatch date_pattern s"
  shows "\<exists>a b c d e f g h. s = [a, b, c, d, CHR ''-'', e, f, CHR ''-'', g, h] \<and>
    digit a \<and> digit b \<and> digit c \<and> digit d \<and> digit e \<and> digit f \<and> digit g \<and> digit h"
  using assms unfolding date_pattern_def
  by (elim fullmatch_DigitE fullmatch_ExactlyE fullmatch_NilE) simp

lemma datetime_patternD:
  assumes "fullmatch datetime_pattern s"
  shows "\<exists>a b c d e f g h p q u v w z.
    s = [a, b, c, d, CHR ''-'', e, f, CHR ''-'', g, h, CHR '' '',
          p, q, CHR '':'', u, v, CHR '':'', w, z] \<and>
    digit a \<and> digit b \<and> digit c \<and> digit d \<and> digit e \<and> digit f \<and> digit g \<and> digit h \<and>
    digit p \<and> digit q \<and> digit u \<and> digit v \<and> digit w \<and> digit z"
  using assms unfolding datetime_pattern_def date_pattern_def append.simps
  by (elim fullmatch_DigitE fullmatch_ExactlyE fullmatch_NilE) simp

lemma digit_neq: "digit c \<Longrightarrow> c \<noteq> CHR ''-'' \<and> c \<noteq> CHR '':'' \<and> c \<noteq> CHR '' ''"
  by (auto simp: digit_def one_of_def)

lemma date_pattern_shape:
  assumes "fullmatch date_pattern s"
  shows "date_shape s"
proof -
  from date_patternD[OF assms] obtain a b c d e f g h where
    s: "s = [a, b, c, d, CHR ''-'', e, f, CHR ''-'', g, h]" and
    dg: "digit a" "digit b" "digit c" "digit d" "digit e" "digit f" "digit g" "digit h"
    by blast
  note n = dg[THEN digit_neq]
  show ?thesis using n by (simp add: s date_shape_def)
qed

lemma datetime_pattern_shape:
  assumes "fullmatch datetime_pattern s"
  shows "\<not> date_shape s \<and> datetime_shape s"
proof -
  from datetime_patternD[OF assms] obtain a b c d e f g h p q u v w z where
    s: "s = [a, b, c, d, CHR ''-'', e, f, CHR ''-'', g, h, CHR '' '',
             p, q, CHR '':'', u, v, CHR '':'', w, z]" and
    dg: "digit a" "digit b" "digit c" "digit d" "digit e" "digit f" "digit g" "digit h"
      "digit p" "digit q" "digit u" "digit v" "digit w" "digit z"
    by blast
  note n = dg[THEN digit_neq]
  show ?thesis using n by (simp add: s date_shape_def datetime_shape_def)
qed

lemma strptime_date_pattern:
  assumes "fullmatch date_pattern s"
  shows "strptime s Format_date =
     (if valid_datetime (date_value s) then Inr (date_value s)
      else Inl (projl (strptime s Format_date)))"
proof -
  from date_patternD[OF assms] obtain a b c d e f g h where
    s: "s = [a, b, c, d, CHR ''-'', e, f, CHR ''-'', g, h]" and
    dg: "digit a" "digit b" "digit c" "digit d" "digit e" "digit f" "digit g" "digit h"
    by blast
  have v: "date_value s = DateTime (decimal [a, b, c, d]) (decimal [e, f]) (decimal [g, h]) 0 0 0"
    by (simp add: s date_value_def number_at_def)
  show ?thesis
    unfolding v unfolding s strptime_date_digits[OF dg] by (simp add: Let_def)
qed

lemma strptime_datetime_pattern:
  assumes "fullmatch datetime_pattern s"
  shows "strptime s Format_datetime =
     (if valid_datetime (datetime_value s) then Inr (datetime_value s)
      else Inl (projl (strptime s Format_datetime)))"
proof -
  from datetime_patternD[OF assms] obtain a b c d e f g h p q u v w z where
    s: "s = [a, b, c, d, CHR ''-'', e, f, CHR ''-'', g, h, CHR '' '',
             p, q, CHR '':'', u, v, CHR '':'', w, z]" and
    dg: "digit a" "digit b" "digit c" "digit d" "digit e" "digit f" "digit g" "digit h"
      "digit p" "digit q" "digit u" "digit v" "digit w" "digit z"
    by blast
  have v: "datetime_value s = DateTime (decimal [a, b, c, d]) (decimal [e, f]) (decimal [g, h])
                (decimal [p, q]) (decimal [u, v]) (decimal [w, z])"
    by (simp add: s datetime_value_def number_at_def)
  show ?thesis
    unfolding v unfolding s strptime_datetime_digits[OF dg] by (simp add: Let_def)
qed

section \<open>The parameter binder\<close>

lemma bind_param_str:
  "bind_param drv key (PStr s) (ps, outs) tr =
     (if date_shape s then
        (case strptime s Format_date of
           Inr dt \<Rightarrow> (Inr (ps @ [Value (PDateTime dt)], outs), tr)
         | Inl e \<Rightarrow> (Inl (ValidationError (Date_conversion key e)), tr))
      else if datetime_shape s then
        (case strptime s Format_datetime of
           Inr dt \<Rightarrow> (Inr (ps @ [Value (PDateTime dt)], outs), tr)
         | Inl e \<Rightarrow> (Inl (ValidationError (Datetime_conversion key e)), tr))
      else (Inr (ps @ [Value (PStr s)], outs), tr))"
  by (simp add: bind_param_def is_out_descriptor_def coerce_def return_def raise_def
      split: sum.split)

text \<open>
  C2.  A parameter whose value is a text of the form \<^verbatim>\<open>dddd-dd-dd\<close> is parsed with the
  date format.  When its fields are a date of the calendar, parsing gives that date
  and the binder appends it in place of the text; otherwise parsing fails and binding
  fails with a validation error that carries the key of the parameter and the parse
  error.
\<close>

theorem date_parameter:
  assumes "fullmatch date_pattern s"
  shows "(valid_datetime (date_value s) \<longrightarrow>
            strptime s Format_date = Inr (date_value s) \<and>
            bind_param drv key (PStr s) (ps, outs) tr =
              (Inr (ps @ [Value (PDateTime (date_value s))], outs), tr))
       \<and> (\<not> valid_datetime (date_value s) \<longrightarrow>
            (\<exists>e. strptime s Format_date = Inl e \<and>
                 bind_param drv key (PStr s) (ps, outs) tr =
                   (Inl (ValidationError (Date_conversion key e)), tr)))"
proof -
  have sh: "date_shape s" using assms by (rule date_pattern_shape)
  have p: "strptime s Format_date =
     (if valid_datetime (date_value s) then Inr (date_value s)
      else Inl (projl (strptime s Format_date)))"
    using assms by (rule strptime_date_pattern)
  show ?thesis
  proof (cases "valid_datetime (date_value s)")
    case True
    with p have "strptime s Format_date = Inr (date_value s)" by simp
    with True sh show ?thesis by (simp add: bind_param_str)
  next
    case False
    with p have "strptime s Format_date = Inl (projl (strptime s Format_date))" by simp
    then obtain e where "strptime s Format_date = Inl e" ..
    with False sh show ?thesis by (simp add: bind_param_str)
  qed
qed

theorem date_parameter_witness:
  "fullmatch date_pattern ''2024-02-29'' \<and> fullmatch date_pattern ''2024-13-40''
   \<and> bind_param sample_driver ''d'' (PStr ''2024-02-29'') ([], []) [] =
       (Inr ([Value (PDateTime (DateTime 2024 2 29 0 0 0))], []), [])
   \<and> bind_param sample_driver ''d'' (PStr ''2024-13-40'') ([], []) [] =
       (Inl (ValidationError (Date_conversion ''d'' No_match)), [])"
proof -
  have f: "fullmatch date_pattern ''2024-02-29''" "fullmatch date_pattern ''2024-13-40''"
    by (simp_all add: date_pattern_def digit_def one_of_def)
  have v: "date_value ''2024-02-29'' = DateTime 2024 2 29 0 0 0"
    "date_value ''2024-13-40'' = DateTime 2024 13 40 0 0 0"
    by (simp_all add: date_value_def number_at_def decimal_def digit_val_def)
  have ok: "valid_datetime (DateTime 2024 2 29 0 0 0)" "\<not> valid_datetime (DateTime 2024 13 40 0 0 0)"
    by (simp_all add: valid_datetime_def days_in_month_def is_leap_def)
  have n: "strptime ''2024-13-40'' Format_date = Inl No_match"
    by (simp add: strptime_def one_of_def digit_def)
  from date_parameter[OF f(1), of sample_driver "''d''" "[]" "[]" "[]"]
    date_parameter[OF f(2), of sample_driver "''d''" "[]" "[]" "[]"] f v ok n
  show ?thesis by simp
qed

text \<open>
  A text of ten characters with two hyphens is rejected although it matches neither
  pattern, and a text of the second pattern that is not a time of day is rejected
  rather than converted.
\<close>

theorem string_parameter_counterexample:
  "\<not> fullmatch date_pattern ''ab-cd-efgh'' \<and> \<not> fullmatch datetime_pattern ''ab-cd-efgh''
   \<and> bind_param sample_driver ''p'' (PStr ''ab-cd-efgh'') ([], []) [] =
       (Inl (ValidationError (Date_conversion ''p'' No_match)), [])
   \<and> fullmatch datetime_pattern ''2024-01-01 24:00:00''
   \<and> bind_param sample_driver ''p'' (PStr ''2024-01-01 24:00:00'') ([], []) [] =
       (Inl (ValidationError (Datetime_conversion ''p'' No_match)), [])"
proof -
  have 1: "\<not> fullmatch date_pattern ''ab-cd-efgh''" "\<not> fullmatch datetime_pattern ''ab-cd-efgh''"
    "fullmatch datetime_pattern ''2024-01-01 24:00:00''"
    by (simp_all add: date_pattern_def datetime_pattern_def digit_def one_of_def)
  have 2: "strptime ''ab-cd-efgh'' Format_date = Inl No_match"
    "strptime ''2024-01-01 24:00:00'' Format_datetime = Inl No_match"
    by (simp_all add: strptime_def one_of_def digit_def is_space_def)
  have 3: "date_shape ''ab-cd-efgh''" "\<not> date_shape ''2024-01-01 24:00:00''"
    "datetime_shape ''2024-01-01 24:00:00''"
    by (simp_all add: date_shape_def datetime_shape_def)
  from 1 2 3 show ?thesis by (simp add: bind_param_str)
qed

text \<open>
  C3, as amended.  A text that has neither two hyphens and length 10, nor two hyphens,
  two colons and length 19, matches neither pattern and is appended unchanged.  A text
  with two hyphens and length 10 is parsed with the date format, and any other text
  with two hyphens, two colons and length 19 with the date-time format: it is replaced
  by what parsing gives, or binding fails with a validation error that carries the key.
  A text of the second pattern is replaced by the date-time of its fields when they
  are a date and a time of day, and is rejected so otherwise.
\<close>

theorem string_parameter:
  "(\<not> date_shape s \<and> \<not> datetime_shape s \<longrightarrow>
      \<not> fullmatch date_pattern s \<and> \<not> fullmatch datetime_pattern s \<and>
      bind_param drv key (PStr s) (ps, outs) tr = (Inr (ps @ [Value (PStr s)], outs), tr))
   \<and> (date_shape s \<longrightarrow>
      bind_param drv key (PStr s) (ps, outs) tr =
        (case strptime s Format_date of
           Inr dt \<Rightarrow> (Inr (ps @ [Value (PDateTime dt)], outs), tr)
         | Inl e \<Rightarrow> (Inl (ValidationError (Date_conversion key e)), tr)))
   \<and> (\<not> date_shape s \<and> datetime_shape s \<longrightarrow>
      bind_param drv key (PStr s) (ps, outs) tr =
        (case strptime s Format_datetime of
           Inr dt \<Rightarrow> (Inr (ps @ [Value (PDateTime dt)], outs), tr)
         | Inl e \<Rightarrow> (Inl (ValidationError (Datetime_conversion key e)), tr)))
   \<and> (fullmatch datetime_pattern s \<longrightarrow>
      (if valid_datetime (datetime_value s)
       then bind_param drv key (PStr s) (ps, outs) tr =
              (Inr (ps @ [Value (PDateTime (datetime_value s))], outs), tr)
       else \<exists>e. bind_param drv key (PStr s) (ps, outs) tr =
              (Inl (ValidationError (Datetime_conversion key e)), tr)))"
proof -
  have a: "\<not> fullmatch date_pattern s \<and> \<not> fullmatch datetime_pattern s"
    if "\<not> date_shape s" "\<not> datetime_shape s"
    using that date_pattern_shape datetime_pattern_shape by blast
  have d: "if valid_datetime (datetime_value s)
       then bind_param drv key (PStr s) (ps, outs) tr =
              (Inr (ps @ [Value (PDateTime (datetime_value s))], outs), tr)
       else \<exists>e. bind_param drv key (PStr s) (ps, outs) tr =
              (Inl (ValidationError (Datetime_conversion key e)), tr)"
    if m: "fullmatch datetime_pattern s"
  proof -
    from m have sh: "\<not> date_shape s" "datetime_shape s"
      using datetime_pattern_shape by blast+
    have p: "strptime s Format_datetime =
       (if valid_datetime (datetime_value s) then Inr (datetime_value s)
        else Inl (projl (strptime s Format_datetime)))"
      using m by (rule strptime_datetime_pattern)
    show ?thesis
    proof (cases "valid_datetime (datetime_value s)")
      case True
      with p have "strptime s Format_datetime = Inr (datetime_value s)" by simp
      with True sh show ?thesis by (simp add: bind_param_str)
    next
      case False
      with p have "strptime s Format_datetime = Inl (projl (strptime s Format_datetime))" by simp
      then obtain e where "strptime s Format_datetime = Inl e" ..
      with False sh show ?thesis by (simp add: bind_param_str)
    qed
  qed
  have b: "bind_param drv key (PStr s) (ps, outs) tr = (Inr (ps @ [Value (PStr s)], outs), tr)"
    if "\<not> date_shape s" "\<not> datetime_shape s"
    using that by (simp add: bind_param_str)
  have c1: "bind_param drv key (PStr s) (ps, outs) tr =
        (case strptime s Format_date of
           Inr dt \<Rightarrow> (Inr (ps @ [Value (PDateTime dt)], outs), tr)
         | Inl e \<Rightarrow> (Inl (ValidationError (Date_conversion key e)), tr))"
    if "date_shape s"
    using that by (simp add: bind_param_str)
  have c2: "bind_param drv key (PStr s) (ps, outs) tr =
        (case strptime s Format_datetime of
           Inr dt \<Rightarrow> (Inr (ps @ [Value (PDateTime dt)], outs), tr)
         | Inl e \<Rightarrow> (Inl (ValidationError (Datetime_conversion key e)), tr))"
    if "\<not> date_shape s" "datetime_shape s"
    using that by (simp add: bind_param_str)
  from a b c1 c2 d show ?thesis by blast
qed

theorem string_parameter_witness:
  "bind_param sample_driver ''p'' (PStr ''2024-1-1'') ([], []) [] =
     (Inr ([Value (PStr ''2024-1-1'')], []), [])
   \<and> bind_param sample_driver ''p'' (PStr ''2024-01-01 23:59:59'') ([], []) [] =
     (Inr ([Value (PDateTime (DateTime 2024 1 1 23 59 59))], []), [])"
proof -
  have 1: "\<not> date_shape ''2024-1-1''" "\<not> datetime_shape ''2024-1-1''"
    by (simp_all add: date_shape_def datetime_shape_def)
  have 2: "fullmatch datetime_pattern ''2024-01-01 23:59:59''"
    by (simp add: datetime_pattern_def date_pattern_def digit_def one_of_def)
  have 3: "datetime_value ''2024-01-01 23:59:59'' = DateTime 2024 1 1 23 59 59"
    by (simp add: datetime_value_def number_at_def decimal_def digit_val_def)
  have 4: "valid_datetime (DateTime 2024 1 1 23 59 59)"
    by (simp add: valid_datetime_def days_in_month_def)
  from string_parameter[of "''2024-1-1''" sample_driver "''p''" "[]" "[]" "[]"]
    string_parameter[of "''2024-01-01 23:59:59''" sample_driver "''p''" "[]" "[]" "[]"]
    1 2 3 4
  show ?thesis by simp
qed








end
